theory Spec2Isabelle
  imports Complex_Main "HOL-Library.Finite_Map" "HOL-Library.Char_ord" "HOL-Library.List_Lexorder"
begin

section \<open>Python numbers used by the replication check\<close>

text \<open>
  The check is Python 2 code. Counts and the threshold are Python integers (unbounded,
  modelled as \<open>int\<close>). The ratio is computed as
  \<^verbatim>\<open>(num_available / float(expected_count)) * 100\<close>, that is in IEEE 754 binary64
  arithmetic: the conversion \<^verbatim>\<open>float(n)\<close>, the division and the multiplication each
  round their exact result to the nearest double, ties to even. A double is modelled by
  the rational number it denotes, or by one of the two infinities (NaN cannot arise from
  these three operations on integers with a non-zero divisor).
\<close>

datatype pyfloat = Finite rat | PosInf | NegInf

datatype py_error = OverflowError | ZeroDivisionError | FormatError

definition pow2 :: "int \<Rightarrow> rat" where
  "pow2 k = (if 0 \<le> k then 2 ^ nat k else 1 / 2 ^ nat (- k))"

fun bit_length :: "nat \<Rightarrow> nat" where
  "bit_length n = (if n = 0 then 0 else Suc (bit_length (n div 2)))"

declare bit_length.simps [simp del]

text \<open>\<open>floor_log2 x\<close> is the binary exponent of a positive rational: the \<open>e\<close> with
  \<open>2^e \<le> x < 2^(e+1)\<close>.\<close>

definition floor_log2 :: "rat \<Rightarrow> int" where
  "floor_log2 x =
     (if 1 \<le> x then int (bit_length (nat \<lfloor>x\<rfloor>)) - 1
      else - int (bit_length (nat (\<lceil>1 / x\<rceil> - 1))))"

definition round_half_even :: "rat \<Rightarrow> int" where
  "round_half_even x =
     (let f = \<lfloor>x\<rfloor>; d = x - of_int f
      in if d < 1 / 2 then f
         else if 1 / 2 < d then f + 1
         else if even f then f else f + 1)"

text \<open>Rounding of an exact result to binary64: 53 significant bits, exponents from
  \<open>-1022\<close> (below that the spacing stays that of the subnormals) to \<open>1023\<close> (a rounded
  magnitude of \<open>2^1024\<close> or more is an infinity). \<open>rounded x\<close> is the nearest multiple of
  the spacing at \<open>x\<close>, ties to the even multiple.\<close>

definition rounded :: "rat \<Rightarrow> rat" where
  "rounded x =
     (let e = max (floor_log2 \<bar>x\<bar>) (- 1022);
          ulp = pow2 (e - 52)
      in of_int (round_half_even (x / ulp)) * ulp)"

definition round_binary64 :: "rat \<Rightarrow> pyfloat" where
  "round_binary64 x =
     (if x = 0 then Finite 0
      else let r = rounded x
           in if pow2 1024 \<le> \<bar>r\<bar> then (if 0 < x then PosInf else NegInf)
              else Finite r)"

text \<open>\<^verbatim>\<open>float(n)\<close> of a Python integer raises OverflowError when the rounded value is
  not finite.\<close>

definition float_of_int :: "int \<Rightarrow> py_error + rat" where
  "float_of_int n =
     (case round_binary64 (of_int n) of
        Finite r \<Rightarrow> Inr r
      | _ \<Rightarrow> Inl OverflowError)"

definition float_div :: "rat \<Rightarrow> rat \<Rightarrow> py_error + pyfloat" where
  "float_div a b = (if b = 0 then Inl ZeroDivisionError else Inr (round_binary64 (a / b)))"

fun float_mul :: "pyfloat \<Rightarrow> rat \<Rightarrow> pyfloat" where
  "float_mul (Finite a) b = round_binary64 (a * b)"
| "float_mul PosInf b = (if 0 < b then PosInf else NegInf)"
| "float_mul NegInf b = (if 0 < b then NegInf else PosInf)"

text \<open>Python compares a float with an integer exactly.\<close>

fun float_less_int :: "pyfloat \<Rightarrow> int \<Rightarrow> bool" where
  "float_less_int (Finite r) c = (r < of_int c)"
| "float_less_int PosInf c = False"
| "float_less_int NegInf c = True"

section \<open>The ratio and the under-replication test\<close>

text \<open>
  \<^verbatim>\<open>
  def is_under_replicated(num_available, expected_count, crit_threshold):
      if expected_count == 0:
          ratio = 100
      else:
          ratio = (num_available / float(expected_count)) * 100
      if ratio < crit_threshold:
          return (True, ratio)
      else:
          return (False, ratio)
  \<close>
\<close>

definition compute_ratio :: "int \<Rightarrow> int \<Rightarrow> py_error + pyfloat" where
  "compute_ratio num_available expected_count =
     (if expected_count = 0 then Inr (Finite 100)
      else case float_of_int expected_count of
             Inl err \<Rightarrow> Inl err
           | Inr ef \<Rightarrow>
               (case float_of_int num_available of
                  Inl err \<Rightarrow> Inl err
                | Inr nf \<Rightarrow>
                    (case float_div nf ef of
                       Inl err \<Rightarrow> Inl err
                     | Inr q \<Rightarrow> Inr (float_mul q 100))))"

definition is_under_replicated :: "int \<Rightarrow> int \<Rightarrow> int \<Rightarrow> py_error + (bool \<times> pyfloat)" where
  "is_under_replicated num_available expected_count crit_threshold =
     (case compute_ratio num_available expected_count of
        Inl err \<Rightarrow> Inl err
      | Inr ratio \<Rightarrow>
          if float_less_int ratio crit_threshold then Inr (True, ratio)
          else Inr (False, ratio))"


section \<open>String formatting\<close>

text \<open>\<^verbatim>\<open>'%d' % n\<close> for an integer is its decimal numeral; for a float it is the numeral
  of the float truncated towards zero, and an infinite float cannot be converted.\<close>

definition digit_char :: "nat \<Rightarrow> char" where
  "digit_char n = char_of (48 + n)"

fun digits :: "nat \<Rightarrow> string" where
  "digits n = (if n < 10 then [digit_char n] else digits (n div 10) @ [digit_char (n mod 10)])"

declare digits.simps [simp del]

definition format_d :: "int \<Rightarrow> string" where
  "format_d i = (if i < 0 then CHR ''-'' # digits (nat (- i)) else digits (nat i))"

definition truncate_rat :: "rat \<Rightarrow> int" where
  "truncate_rat r = (if 0 \<le> r then \<lfloor>r\<rfloor> else \<lceil>r\<rceil>)"

fun format_d_float :: "pyfloat \<Rightarrow> py_error + string" where
  "format_d_float (Finite r) = Inr (format_d (truncate_rat r))"
| "format_d_float PosInf = Inl FormatError"
| "format_d_float NegInf = Inl FormatError"

section \<open>External collaborators\<close>

text \<open>
  The modules \<^verbatim>\<open>marathon_tools\<close>, \<^verbatim>\<open>monitoring_tools\<close>, \<^verbatim>\<open>monitoring.context\<close>,
  \<^verbatim>\<open>paasta_serviceinit\<close> and \<^verbatim>\<open>pysensu_yelp\<close> are imported by the script and are not
  part of it. What they return is a parameter: a record of functions, one field per
  function the script calls, named as in the source. The values they return are Python
  objects, of which the script only uses the truth value, the length or the text.
\<close>

datatype pyval = PyNone | PyBool bool | PyInt int | PyStr string | PyList "string list"

fun py_truthy :: "pyval \<Rightarrow> bool" where
  "py_truthy PyNone = False"
| "py_truthy (PyBool b) = b"
| "py_truthy (PyInt i) = (i \<noteq> 0)"
| "py_truthy (PyStr s) = (s \<noteq> [])"
| "py_truthy (PyList l) = (l \<noteq> [])"

datatype expected_count_result = NoDeploymentsAvailable | Returned "int option"

type_synonym task = string

record env =
  ID_SPACER :: string
  read_namespace_for_service_instance :: "string \<Rightarrow> string \<Rightarrow> string \<Rightarrow> string"
  get_expected_instance_count_for_namespace :: "string \<Rightarrow> string \<Rightarrow> string \<Rightarrow> expected_count_result"
  get_proxy_port_for_instance :: "string \<Rightarrow> string \<Rightarrow> string \<Rightarrow> int option"
  get_running_tasks_from_active_frameworks :: "string \<Rightarrow> string \<Rightarrow> task list"
  get_context :: "string \<Rightarrow> string \<Rightarrow> string"
  get_cluster :: string
  get_team :: "string \<Rightarrow> string \<Rightarrow> string \<Rightarrow> pyval"
  get_runbook :: "string \<Rightarrow> string \<Rightarrow> string \<Rightarrow> pyval"
  get_tip :: "string \<Rightarrow> string \<Rightarrow> string \<Rightarrow> pyval"
  get_notification_email :: "string \<Rightarrow> string \<Rightarrow> string \<Rightarrow> pyval"
  get_page :: "string \<Rightarrow> string \<Rightarrow> string \<Rightarrow> pyval"
  get_irc_channels :: "string \<Rightarrow> string \<Rightarrow> string \<Rightarrow> pyval"
  get_ticket :: "string \<Rightarrow> string \<Rightarrow> string \<Rightarrow> pyval"
  get_project :: "string \<Rightarrow> string \<Rightarrow> string \<Rightarrow> pyval"

section \<open>Alert events\<close>

datatype sensu_status = OK | CRITICAL

text \<open>One call of \<^verbatim>\<open>pysensu_yelp.send_event\<close>, with its positional and keyword
  arguments. The effect of the script is the list of these calls, in order. Logging
  (\<^verbatim>\<open>log.debug\<close>, \<^verbatim>\<open>log.info\<close>, \<^verbatim>\<open>log.error\<close>, \<^verbatim>\<open>_log\<close>) decides nothing and is
  left out.\<close>

record event =
  ev_check_name :: string
  ev_runbook :: pyval
  ev_status :: sensu_status
  ev_output :: string
  ev_team :: pyval
  ev_result_dict :: "(string \<times> pyval) list"

definition send_event :: "env \<Rightarrow> string \<Rightarrow> string \<Rightarrow> string \<Rightarrow> sensu_status \<Rightarrow> string \<Rightarrow> event list" where
  "send_event E service_name namespace soa_dir st out =
     (let framework = ''marathon'';
          cn = ''check_marathon_services_replication.'' @ service_name @ ID_SPACER E @ namespace;
          tm = get_team E framework service_name soa_dir
      in if \<not> py_truthy tm then []
         else let rb = get_runbook E framework service_name soa_dir;
                  cluster = get_cluster E;
                  rd = [(''tip'', get_tip E framework service_name soa_dir),
                        (''notification_email'', get_notification_email E framework service_name soa_dir),
                        (''page'', get_page E framework service_name soa_dir),
                        (''irc_channels'', get_irc_channels E framework service_name soa_dir),
                        (''ticket'', get_ticket E framework service_name soa_dir),
                        (''project'', get_project E framework service_name soa_dir),
                        (''alert_after'', PyStr ''2m''),
                        (''check_every'', PyStr ''1m''),
                        (''realert_every'', PyInt (- 1)),
                        (''source'', PyStr (''paasta-'' @ cluster))]
              in [\<lparr>ev_check_name = cn, ev_runbook = rb, ev_status = st, ev_output = out,
                    ev_team = tm, ev_result_dict = rd\<rparr>])"

definition add_context_to_event :: "env \<Rightarrow> string \<Rightarrow> string \<Rightarrow> string \<Rightarrow> string" where
  "add_context_to_event E service instance out = out @ [CHR 0x0A] @ get_context E service instance"

section \<open>The discovery (smartstack) path\<close>

text \<open>The slice of the replication snapshot handed to the check: a Python dict from
  location name to a dict from full instance name to the number of available backends.
  \<^verbatim>\<open>len\<close> is the number of keys, \<^verbatim>\<open>sorted(d.iteritems())\<close> lists the entries by
  ascending key (the keys of a dict are distinct, so the values are never compared).\<close>

type_synonym replication_info = "(string, string \<rightharpoonup> int) fmap"

definition dict_len :: "replication_info \<Rightarrow> nat" where
  "dict_len d = fcard (fmdom d)"

definition sorted_items :: "replication_info \<Rightarrow> (string \<times> (string \<rightharpoonup> int)) list" where
  "sorted_items d = sorted_list_of_fmap d"

definition dict_get :: "(string \<rightharpoonup> int) \<Rightarrow> string \<Rightarrow> int \<Rightarrow> int" where
  "dict_get d k dflt = (case d k of None \<Rightarrow> dflt | Some v \<Rightarrow> v)"

text \<open>Python 2 \<^verbatim>\<open>a / b\<close> on two integers is floor division and raises on a zero
  divisor; \<^verbatim>\<open>int(...)\<close> of the integer result changes nothing.\<close>

definition py_int_div :: "int \<Rightarrow> int \<Rightarrow> py_error + int" where
  "py_int_div a b = (if b = 0 then Inl ZeroDivisionError else Inr (a div b))"

definition full_name_of :: "env \<Rightarrow> string \<Rightarrow> string \<Rightarrow> string" where
  "full_name_of E service instance = service @ ID_SPACER E @ instance"

definition no_replication_info_output :: "string \<Rightarrow> string" where
  "no_replication_info_output full_name =
     ''Service '' @ full_name @
     '' has no Smartstack replication info. Make sure the discover key in your smartstack.yaml is valid!'' @
     [CHR 0x0A]"

text \<open>One line of the report, \<^verbatim>\<open>'- Service %s has %d out of %d expected instances in %s
  (CRITICAL: %d%%)\n'\<close> or the same with \<^verbatim>\<open>OK\<close>; the last \<^verbatim>\<open>%d\<close> formats the ratio.\<close>

definition location_line :: "string \<Rightarrow> string \<Rightarrow> int \<Rightarrow> int \<Rightarrow> string \<Rightarrow> pyfloat \<Rightarrow> py_error + string" where
  "location_line verdict full_name num_available expected location ratio =
     (case format_d_float ratio of
        Inl err \<Rightarrow> Inl err
      | Inr shown \<Rightarrow>
          Inr (''- Service '' @ full_name @ '' has '' @ format_d num_available @ '' out of '' @
               format_d expected @ '' expected instances in '' @ location @
               '' ('' @ verdict @ '': '' @ shown @ ''%)'' @ [CHR 0x0A]))"

text \<open>The loop over the sorted entries, with the two variables it updates:
  \<^verbatim>\<open>output\<close> and \<^verbatim>\<open>under_replication_per_location\<close>.\<close>

fun check_locations ::
  "string \<Rightarrow> int \<Rightarrow> int \<Rightarrow> (string \<times> (string \<rightharpoonup> int)) list \<Rightarrow> string \<Rightarrow> bool list \<Rightarrow>
   py_error + (string \<times> bool list)" where
  "check_locations full_name expected_count_per_location crit_threshold [] out unders =
     Inr (out, unders)"
| "check_locations full_name expected_count_per_location crit_threshold
     ((location, available_backends) # rest) out unders =
     (let num_available_in_location = dict_get available_backends full_name 0
      in case is_under_replicated num_available_in_location expected_count_per_location
                crit_threshold of
           Inl err \<Rightarrow> Inl err
         | Inr (under_replicated, ratio) \<Rightarrow>
             (case (if under_replicated
                    then location_line ''CRITICAL'' full_name num_available_in_location
                           expected_count_per_location location ratio
                    else location_line ''OK'' full_name num_available_in_location
                           expected_count_per_location location ratio) of
                Inl err \<Rightarrow> Inl err
              | Inr line \<Rightarrow>
                  check_locations full_name expected_count_per_location crit_threshold rest
                    (out @ line) (unders @ [under_replicated])))"

text \<open>One round of the loop as a function of the entry alone: the line it adds to the
  output and the flag it appends, or the exception it raises. \<open>collect_rows\<close> runs the
  rounds in order and stops at the first exception. These two describe the loop; the
  loop itself is \<open>check_locations\<close> above.\<close>

definition location_row ::
  "string \<Rightarrow> int \<Rightarrow> int \<Rightarrow> string \<times> (string \<rightharpoonup> int) \<Rightarrow> py_error + (string \<times> bool)" where
  "location_row full_name per_location crit_threshold entry =
     (let num_available_in_location = dict_get (snd entry) full_name 0
      in case is_under_replicated num_available_in_location per_location crit_threshold of
           Inl err \<Rightarrow> Inl err
         | Inr (under_replicated, ratio) \<Rightarrow>
             (case location_line (if under_replicated then ''CRITICAL'' else ''OK'') full_name
                     num_available_in_location per_location (fst entry) ratio of
                Inl err \<Rightarrow> Inl err
              | Inr line \<Rightarrow> Inr (line, under_replicated)))"

fun collect_rows :: "(py_error + 'a) list \<Rightarrow> py_error + 'a list" where
  "collect_rows [] = Inr []"
| "collect_rows (Inl err # rest) = Inl err"
| "collect_rows (Inr row # rest) =
     (case collect_rows rest of Inl err \<Rightarrow> Inl err | Inr rows \<Rightarrow> Inr (row # rows))"

text \<open>\<^verbatim>\<open>expected_count_per_location = int(expected_count / len(smartstack_replication_info))\<close>\<close>

definition expected_count_per_location :: "int \<Rightarrow> replication_info \<Rightarrow> py_error + int" where
  "expected_count_per_location expected_count smartstack_replication_info =
     py_int_div expected_count (int (dict_len smartstack_replication_info))"

definition check_smartstack_replication_for_instance ::
  "env \<Rightarrow> string \<Rightarrow> string \<Rightarrow> replication_info \<Rightarrow> string \<Rightarrow> int \<Rightarrow> int \<Rightarrow> py_error + event list" where
  "check_smartstack_replication_for_instance E service instance smartstack_replication_info
     soa_dir crit_threshold expected_count =
     (let namespace = read_namespace_for_service_instance E service instance soa_dir
      in if namespace \<noteq> instance then Inr []
         else let full_name = full_name_of E service instance
              in if dict_len smartstack_replication_info = 0
                 then Inr (send_event E service instance soa_dir CRITICAL
                             (add_context_to_event E service instance
                                (no_replication_info_output full_name)))
                 else case expected_count_per_location expected_count smartstack_replication_info of
                        Inl err \<Rightarrow> Inl err
                      | Inr per_location \<Rightarrow>
                          (case check_locations full_name per_location
                                  crit_threshold (sorted_items smartstack_replication_info) [] [] of
                             Inl err \<Rightarrow> Inl err
                           | Inr (out, unders) \<Rightarrow>
                               if list_ex (\<lambda>b. b) unders
                               then Inr (send_event E service instance soa_dir CRITICAL
                                           (add_context_to_event E service instance out))
                               else Inr (send_event E service instance soa_dir OK out)))"

section \<open>The direct-count (mesos) path\<close>

definition send_event_if_under_replication ::
  "env \<Rightarrow> string \<Rightarrow> string \<Rightarrow> int \<Rightarrow> int \<Rightarrow> int \<Rightarrow> string \<Rightarrow> py_error + event list" where
  "send_event_if_under_replication E service instance crit_threshold expected_count
     num_available soa_dir =
     (let full_name = full_name_of E service instance;
          out = ''Service '' @ full_name @ '' has '' @ format_d num_available @ '' out of '' @
                format_d expected_count @ '' expected instances available!'' @ [CHR 0x0A] @
                ''(threshold: '' @ format_d crit_threshold @ ''%)''
      in case is_under_replicated num_available expected_count crit_threshold of
           Inl err \<Rightarrow> Inl err
         | Inr (under_replicated, _) \<Rightarrow>
             if under_replicated
             then Inr (send_event E service instance soa_dir CRITICAL out)
             else Inr (send_event E service instance soa_dir OK out))"

definition check_mesos_replication_for_service ::
  "env \<Rightarrow> string \<Rightarrow> string \<Rightarrow> string \<Rightarrow> int \<Rightarrow> int \<Rightarrow> py_error + event list" where
  "check_mesos_replication_for_service E service instance soa_dir crit_threshold expected_count =
     (let num_available = int (length (get_running_tasks_from_active_frameworks E service instance))
      in send_event_if_under_replication E service instance crit_threshold expected_count
           num_available soa_dir)"

section \<open>Choosing the path\<close>

definition check_service_replication ::
  "env \<Rightarrow> string \<Rightarrow> string \<Rightarrow> int \<Rightarrow> replication_info \<Rightarrow> string \<Rightarrow> py_error + event list" where
  "check_service_replication E service instance crit_threshold smartstack_replication_info soa_dir =
     (case get_expected_instance_count_for_namespace E service instance soa_dir of
        NoDeploymentsAvailable \<Rightarrow> Inr []
      | Returned None \<Rightarrow> Inr []
      | Returned (Some expected_count) \<Rightarrow>
          (case get_proxy_port_for_instance E service instance soa_dir of
             Some proxy_port \<Rightarrow>
               check_smartstack_replication_for_instance E service instance
                 smartstack_replication_info soa_dir crit_threshold expected_count
           | None \<Rightarrow>
               check_mesos_replication_for_service E service instance soa_dir crit_threshold
                 expected_count))"

section \<open>A concrete configuration\<close>

text \<open>A small cluster used to instantiate the theorems below: service \<open>svc\<close> with a
  discovery-registered instance \<open>main\<close> and an instance \<open>shadow\<close> announced under the
  namespace \<open>main\<close>; an instance \<open>batch\<close> without a proxy port and two instances
  \<open>canary\<close> and \<open>adhoc\<close> announced under the namespace \<open>batch\<close>, hence without a proxy
  port too; an instance without deployments, one whose expected count is \<^verbatim>\<open>None\<close>, and
  a service \<open>orphan\<close> that has no team.\<close>

definition example_env :: env where
  "example_env =
     \<lparr>ID_SPACER = ''.'',
      read_namespace_for_service_instance =
        (\<lambda>s i d. if i = ''shadow'' then ''main''
                  else if i = ''canary'' \<or> i = ''adhoc'' then ''batch''
                  else i),
      get_expected_instance_count_for_namespace =
        (\<lambda>s i d. if i = ''undeployed'' then NoDeploymentsAvailable
                  else if i = ''unknown'' then Returned None
                  else if i = ''canary'' then Returned (Some 0)
                  else if i = ''batch'' \<or> i = ''adhoc'' then Returned (Some 4)
                  else Returned (Some 10)),
      get_proxy_port_for_instance =
        (\<lambda>s i d. if i = ''batch'' \<or> i = ''canary'' \<or> i = ''adhoc'' then None
                  else Some 20000),
      get_running_tasks_from_active_frameworks = (\<lambda>s i. [''task-1'']),
      get_context = (\<lambda>s i. ''recent deploys''),
      get_cluster = ''norcal'',
      get_team = (\<lambda>f s d. if s = ''orphan'' then PyNone else PyStr ''operations''),
      get_runbook = (\<lambda>f s d. PyStr ''y/rb-replication''),
      get_tip = (\<lambda>f s d. PyNone),
      get_notification_email = (\<lambda>f s d. PyNone),
      get_page = (\<lambda>f s d. PyBool True),
      get_irc_channels = (\<lambda>f s d. PyList []),
      get_ticket = (\<lambda>f s d. PyBool False),
      get_project = (\<lambda>f s d. PyNone)\<rparr>"

text \<open>A snapshot slice with three locations, listed out of order.\<close>

definition example_info :: replication_info where
  "example_info = fmap_of_list
     [(''dc-b'', [''svc.main'' \<mapsto> 1]), (''dc-a'', [''svc.main'' \<mapsto> 3]), (''dc-c'', Map.empty)]"

text \<open>The event that the check of \<open>svc.main\<close> sends on this snapshot with an expected
  count of 10 and a threshold of 50.\<close>

definition example_event :: event where
  "example_event =
     \<lparr>ev_check_name = ''check_marathon_services_replication.svc.main'',
      ev_runbook = PyStr ''y/rb-replication'',
      ev_status = CRITICAL,
      ev_output =
        ''- Service svc.main has 3 out of 3 expected instances in dc-a (OK: 100%)'' @ [CHR 0x0A] @
        ''- Service svc.main has 1 out of 3 expected instances in dc-b (CRITICAL: 33%)'' @ [CHR 0x0A] @
        ''- Service svc.main has 0 out of 3 expected instances in dc-c (CRITICAL: 0%)'' @ [CHR 0x0A] @
        [CHR 0x0A] @ ''recent deploys'',
      ev_team = PyStr ''operations'',
      ev_result_dict =
        [(''tip'', PyNone), (''notification_email'', PyNone), (''page'', PyBool True),
         (''irc_channels'', PyList []), (''ticket'', PyBool False), (''project'', PyNone),
         (''alert_after'', PyStr ''2m''), (''check_every'', PyStr ''1m''),
         (''realert_every'', PyInt (- 1)), (''source'', PyStr ''paasta-norcal'')]\<rparr>"

text \<open>The event sent on the same snapshot when the threshold is 0.\<close>

definition example_event_ok :: event where
  "example_event_ok =
     \<lparr>ev_check_name = ''check_marathon_services_replication.svc.main'',
      ev_runbook = PyStr ''y/rb-replication'',
      ev_status = OK,
      ev_output =
        ''- Service svc.main has 3 out of 3 expected instances in dc-a (OK: 100%)'' @ [CHR 0x0A] @
        ''- Service svc.main has 1 out of 3 expected instances in dc-b (OK: 33%)'' @ [CHR 0x0A] @
        ''- Service svc.main has 0 out of 3 expected instances in dc-c (OK: 0%)'' @ [CHR 0x0A],
      ev_team = PyStr ''operations'',
      ev_result_dict =
        [(''tip'', PyNone), (''notification_email'', PyNone), (''page'', PyBool True),
         (''irc_channels'', PyList []), (''ticket'', PyBool False), (''project'', PyNone),
         (''alert_after'', PyStr ''2m''), (''check_every'', PyStr ''1m''),
         (''realert_every'', PyInt (- 1)), (''source'', PyStr ''paasta-norcal'')]\<rparr>"

section \<open>Facts about the rounding\<close>

lemma bit_length_upper: "n < 2 ^ bit_length n"
proof (induction n rule: bit_length.induct)
  case (1 n)
  show ?case
  proof (cases "n = 0")
    case True
    then show ?thesis by (simp add: bit_length.simps)
  next
    case False
    with 1 have "n div 2 < 2 ^ bit_length (n div 2)" by simp
    then have "n < 2 * 2 ^ bit_length (n div 2)" by linarith
    with False show ?thesis by (subst bit_length.simps) simp
  qed
qed

lemma bit_length_lower: "0 < n \<Longrightarrow> 2 ^ (bit_length n - 1) \<le> n"
proof (induction n rule: bit_length.induct)
  case (1 n)
  show ?case
  proof (cases "n div 2 = 0")
    case True
    with 1(2) have "n = 1" by linarith
    then show ?thesis by (simp add: bit_length.simps)
  next
    case False
    with 1 have ih: "2 ^ (bit_length (n div 2) - 1) \<le> n div 2" by simp
    from False have pos: "0 < bit_length (n div 2)" by (subst bit_length.simps) simp
    have "bit_length n = Suc (bit_length (n div 2))"
      using 1(2) by (subst bit_length.simps) simp
    then have "2 ^ (bit_length n - 1) = 2 * 2 ^ (bit_length (n div 2) - 1)"
      using pos by (cases "bit_length (n div 2)") simp_all
    also have "\<dots> \<le> 2 * (n div 2)" using ih by simp
    also have "\<dots> \<le> n" by simp
    finally show ?thesis .
  qed
qed

lemma bit_length_pos: "0 < n \<Longrightarrow> 0 < bit_length n"
  by (subst bit_length.simps) simp

lemma pow2_pos: "0 < pow2 k"
  by (simp add: pow2_def)

lemma pow2_nat: "pow2 (int n) = 2 ^ n"
  by (simp add: pow2_def)

lemma pow2_neg_nat: "pow2 (- int n) = 1 / 2 ^ n"
  by (cases n) (simp_all add: pow2_def nat_add_distrib)

lemma pow2_power_int: "pow2 k = power_int 2 k"
  by (simp add: pow2_def power_int_def field_simps)

lemma pow2_add: "pow2 (a + b) = pow2 a * pow2 b"
  by (simp add: pow2_power_int power_int_add)

lemma pow2_mono: "a \<le> b \<Longrightarrow> pow2 a \<le> pow2 b"
  by (simp add: pow2_power_int power_int_increasing)

lemma pow2_strict_mono: "a < b \<Longrightarrow> pow2 a < pow2 b"
  by (simp add: pow2_power_int power_int_strict_increasing)

lemma pow2_less_iff: "pow2 a < pow2 b \<longleftrightarrow> a < b"
  using pow2_strict_mono [of a b] pow2_mono [of b a] by (auto simp: not_less [symmetric])

lemma floor_log2_bounds:
  assumes "0 < x"
  shows "pow2 (floor_log2 x) \<le> x" and "x < pow2 (floor_log2 x + 1)"
proof -
  show "pow2 (floor_log2 x) \<le> x"
  proof (cases "1 \<le> x")
    case True
    define m where "m = nat \<lfloor>x\<rfloor>"
    have mpos: "0 < m" using True by (simp add: m_def)
    have mle: "of_nat m \<le> x" using True by (simp add: m_def) 
    have "floor_log2 x = int (bit_length m - 1)"
      using True bit_length_pos [OF mpos] by (simp add: floor_log2_def m_def)
    then have "pow2 (floor_log2 x) = 2 ^ (bit_length m - 1)" by (simp add: pow2_nat)
    also have "\<dots> \<le> of_nat m"
      using bit_length_lower [OF mpos] by (metis of_nat_le_iff of_nat_numeral of_nat_power)
    finally show ?thesis using mle by simp
  next
    case False
    define j where "j = nat (\<lceil>1 / x\<rceil> - 1)"
    have "floor_log2 x = - int (bit_length j)" using False by (simp add: floor_log2_def j_def)
    then have e: "pow2 (floor_log2 x) = 1 / 2 ^ bit_length j" by (simp add: pow2_neg_nat)
    have "1 / x \<le> of_int \<lceil>1 / x\<rceil>" by simp
    also have "\<lceil>1 / x\<rceil> \<le> int j + 1" unfolding j_def by linarith
    finally have "1 / x \<le> of_int (int j + 1)" by simp
    also have "int j + 1 \<le> 2 ^ bit_length j"
      using bit_length_upper [of j] by (metis Suc_leI int_Suc of_nat_le_iff of_nat_numeral of_nat_power add.commute plus_1_eq_Suc of_nat_Suc)
    finally have "1 / x \<le> 2 ^ bit_length j" by simp
    then have "1 \<le> 2 ^ bit_length j * x" using assms by (simp add: pos_divide_le_eq)
    then have "1 / 2 ^ bit_length j \<le> x" by (simp add: pos_divide_le_eq mult.commute)
    then show ?thesis using e by simp
  qed
  show "x < pow2 (floor_log2 x + 1)"
  proof (cases "1 \<le> x")
    case True
    define m where "m = nat \<lfloor>x\<rfloor>"
    have mpos: "0 < m" using True by (simp add: m_def)
    have "floor_log2 x + 1 = int (bit_length m)"
      using True by (simp add: floor_log2_def m_def)
    then have e: "pow2 (floor_log2 x + 1) = 2 ^ bit_length m" by (simp add: pow2_nat)
    have "x < of_int (\<lfloor>x\<rfloor> + 1)" by linarith
    also have "\<lfloor>x\<rfloor> + 1 = int m + 1" using True by (simp add: m_def)
    also have "int m + 1 \<le> 2 ^ bit_length m"
      using bit_length_upper [of m] by (metis Suc_leI of_nat_le_iff of_nat_numeral of_nat_power add.commute plus_1_eq_Suc of_nat_Suc)
    finally show ?thesis using e by simp
  next
    case False
    define j where "j = nat (\<lceil>1 / x\<rceil> - 1)"
    have y: "1 < 1 / x" using False assms by simp
    then have c: "2 \<le> \<lceil>1 / x\<rceil>" by linarith
    then have jpos: "0 < j" by (simp add: j_def)
    have "floor_log2 x + 1 = - int (bit_length j - 1)"
      using False bit_length_pos [OF jpos] by (simp add: floor_log2_def j_def)
    then have e: "pow2 (floor_log2 x + 1) = 1 / 2 ^ (bit_length j - 1)" by (simp add: pow2_neg_nat)
    have "(2::rat) ^ (bit_length j - 1) \<le> of_nat j"
      using bit_length_lower [OF jpos] by (metis of_nat_le_iff of_nat_numeral of_nat_power)
    also have "of_nat j = (of_int (\<lceil>1 / x\<rceil> - 1) :: rat)"
    proof -
      have ij: "int j = \<lceil>1 / x\<rceil> - 1" using c unfolding j_def by linarith
      have "(of_nat j :: rat) = of_int (int j)" by simp
      then show ?thesis by (simp only: ij)
    qed
    also have "\<dots> < 1 / x" by linarith
    finally have "2 ^ (bit_length j - 1) < 1 / x" .
    then have "2 ^ (bit_length j - 1) * x < 1" using assms by (simp add: pos_less_divide_eq)
    then have "x < 1 / 2 ^ (bit_length j - 1)" by (simp add: pos_less_divide_eq mult.commute)
    then show ?thesis using e by simp
  qed
qed


lemma round_half_even_error: "\<bar>of_int (round_half_even y) - y\<bar> \<le> 1 / 2"
proof -
  have "of_int \<lfloor>y\<rfloor> \<le> y" "y < of_int \<lfloor>y\<rfloor> + 1" by linarith+
  then show ?thesis by (auto simp: round_half_even_def Let_def)
qed

lemma round_half_even_of_int: "round_half_even (of_int k) = k"
  by (simp add: round_half_even_def)

lemma round_half_even_ge: "of_int k \<le> y \<Longrightarrow> k \<le> round_half_even y"
proof -
  assume "of_int k \<le> y"
  then have "k \<le> \<lfloor>y\<rfloor>" by (simp add: le_floor_iff)
  then show ?thesis by (auto simp: round_half_even_def Let_def)
qed

lemma round_half_even_le: "y \<le> of_int k \<Longrightarrow> round_half_even y \<le> k"
proof (cases "y = of_int k")
  case True
  then show ?thesis by (simp add: round_half_even_of_int)
next
  case False
  assume "y \<le> of_int k"
  with False have "y < of_int k" by simp
  then have "\<lfloor>y\<rfloor> < k" by (simp add: floor_less_iff)
  then show ?thesis by (auto simp: round_half_even_def Let_def)
qed

lemma pow2_half: "pow2 (e - 52) / 2 = pow2 (e - 53)"
proof -
  have "pow2 (e - 52) = pow2 (e - 53 + 1)" by simp
  also have "\<dots> = pow2 (e - 53) * pow2 1" by (rule pow2_add)
  finally show ?thesis by (simp add: pow2_def)
qed

lemma pow2_split52: "pow2 e = 2 ^ 52 * pow2 (e - 52)"
proof -
  have "pow2 e = pow2 (52 + (e - 52))" by simp
  also have "\<dots> = pow2 52 * pow2 (e - 52)" by (rule pow2_add)
  finally show ?thesis by (simp add: pow2_def)
qed

lemma round_binary64_rounded:
  "x \<noteq> 0 \<Longrightarrow> round_binary64 x =
     (if pow2 1024 \<le> \<bar>rounded x\<bar> then (if 0 < x then PosInf else NegInf) else Finite (rounded x))"
  by (simp add: round_binary64_def Let_def)

lemma rounded_error_ulp:
  "\<bar>rounded x - x\<bar> \<le> pow2 (max (floor_log2 \<bar>x\<bar>) (- 1022) - 53)"
proof -
  define e where "e = max (floor_log2 \<bar>x\<bar>) (- 1022)"
  define ulp where "ulp = pow2 (e - 52)"
  have up: "0 < ulp" by (simp add: ulp_def pow2_pos)
  have r: "rounded x = of_int (round_half_even (x / ulp)) * ulp"
    by (simp add: rounded_def Let_def e_def ulp_def)
  have "rounded x - x = (of_int (round_half_even (x / ulp)) - x / ulp) * ulp"
    using up by (simp add: r field_simps)
  then have "\<bar>rounded x - x\<bar> = \<bar>of_int (round_half_even (x / ulp)) - x / ulp\<bar> * ulp"
    using up by (simp add: abs_mult)
  also have "\<dots> \<le> 1 / 2 * ulp"
    using up round_half_even_error [of "x / ulp"] by (intro mult_right_mono) simp_all
  also have "\<dots> = pow2 (e - 53)" using pow2_half [of e] by (simp add: ulp_def)
  finally show ?thesis by (simp add: e_def)
qed

lemma rounded_normal:
  assumes "x \<noteq> 0" and "- 1022 \<le> floor_log2 \<bar>x\<bar>"
  shows "\<bar>rounded x - x\<bar> \<le> \<bar>x\<bar> / 2 ^ 53" and "pow2 (floor_log2 \<bar>x\<bar>) \<le> \<bar>rounded x\<bar>"
proof -
  define e where "e = floor_log2 \<bar>x\<bar>"
  define ulp where "ulp = pow2 (e - 52)"
  have up: "0 < ulp" by (simp add: ulp_def pow2_pos)
  have m: "max (floor_log2 \<bar>x\<bar>) (- 1022) = e" using assms(2) by (simp add: e_def)
  have ax: "0 < \<bar>x\<bar>" using assms(1) by simp
  have lo: "pow2 e \<le> \<bar>x\<bar>" using floor_log2_bounds(1) [OF ax] by (simp add: e_def)
  have "pow2 e = 2 ^ 53 * pow2 (e - 53)"
    using pow2_split52 [of e] pow2_half [of e] by simp
  then have "pow2 (e - 53) = pow2 e / 2 ^ 53" by simp
  also have "\<dots> \<le> \<bar>x\<bar> / 2 ^ 53" using lo by (simp add: divide_right_mono)
  finally show "\<bar>rounded x - x\<bar> \<le> \<bar>x\<bar> / 2 ^ 53"
    using rounded_error_ulp [of x] by (simp add: m)
  have r: "rounded x = of_int (round_half_even (x / ulp)) * ulp"
    by (simp add: rounded_def Let_def m ulp_def)
  have big: "2 ^ 52 \<le> \<bar>x\<bar> / ulp"
    using lo up pow2_split52 [of e] by (simp add: ulp_def pos_le_divide_eq)
  have "(2::int) ^ 52 \<le> \<bar>round_half_even (x / ulp)\<bar>"
  proof (cases "0 \<le> x")
    case True
    then have "of_int (2 ^ 52) \<le> x / ulp" using big by simp
    then have "2 ^ 52 \<le> round_half_even (x / ulp)" by (rule round_half_even_ge)
    then show ?thesis by simp
  next
    case False
    then have "x / ulp \<le> of_int (- (2 ^ 52))" using big up by (simp add: field_simps)
    then have "round_half_even (x / ulp) \<le> - (2 ^ 52)" by (rule round_half_even_le)
    then show ?thesis by simp
  qed
  then have "(2::rat) ^ 52 \<le> \<bar>of_int (round_half_even (x / ulp))\<bar>"
    by (metis of_int_abs of_int_le_iff of_int_numeral of_int_power)
  then have "2 ^ 52 * ulp \<le> \<bar>of_int (round_half_even (x / ulp))\<bar> * ulp"
    using up by (simp add: mult_right_mono)
  then show "pow2 (floor_log2 \<bar>x\<bar>) \<le> \<bar>rounded x\<bar>"
    using up pow2_split52 [of e] by (simp add: r abs_mult e_def [symmetric] ulp_def)
qed


lemma round_binary64_in_range:
  assumes lo: "pow2 a \<le> \<bar>x\<bar>" and hi: "\<bar>x\<bar> < pow2 b" and a: "- 1022 \<le> a" and b: "b \<le> 1023"
  shows "round_binary64 x = Finite (rounded x)"
    and "\<bar>rounded x - x\<bar> \<le> \<bar>x\<bar> / 2 ^ 53"
    and "pow2 a \<le> \<bar>rounded x\<bar>"
    and "\<bar>rounded x\<bar> < pow2 (b + 1)"
proof -
  have ax: "0 < \<bar>x\<bar>" using lo pow2_pos [of a] by linarith
  then have x0: "x \<noteq> 0" by simp
  define e where "e = floor_log2 \<bar>x\<bar>"
  have "pow2 a < pow2 (e + 1)" using lo floor_log2_bounds(2) [OF ax] by (simp add: e_def)
  then have ae: "a \<le> e" by (simp add: pow2_less_iff)
  then have n: "- 1022 \<le> floor_log2 \<bar>x\<bar>" using a by (simp add: e_def)
  show err: "\<bar>rounded x - x\<bar> \<le> \<bar>x\<bar> / 2 ^ 53" using rounded_normal(1) [OF x0 n] .
  have "pow2 a \<le> pow2 e" using ae by (rule pow2_mono)
  then show "pow2 a \<le> \<bar>rounded x\<bar>" using rounded_normal(2) [OF x0 n] by (simp add: e_def)
  have "\<bar>x\<bar> / 2 ^ 53 \<le> \<bar>x\<bar>" by (simp add: field_simps)
  then have "\<bar>rounded x\<bar> \<le> 2 * \<bar>x\<bar>" using err by linarith
  also have "\<dots> < 2 * pow2 b" using hi by simp
  also have "\<dots> = pow2 (b + 1)" using pow2_add [of b 1] by (simp add: pow2_def)
  finally show up: "\<bar>rounded x\<bar> < pow2 (b + 1)" .
  have "pow2 (b + 1) \<le> pow2 1024" using b by (intro pow2_mono) simp
  then have "\<not> pow2 1024 \<le> \<bar>rounded x\<bar>" using up by linarith
  then show "round_binary64 x = Finite (rounded x)" using x0 by (simp add: round_binary64_rounded)
qed

lemma rounded_of_int:
  assumes "\<bar>n\<bar> < 2 ^ 53"
  shows "rounded (of_int n) = of_int n"
proof (cases "n = 0")
  case True
  then show ?thesis by (simp add: rounded_def Let_def round_half_even_def)
next
  case False
  define x :: rat where "x = of_int n"
  define e where "e = floor_log2 \<bar>x\<bar>"
  have ax: "0 < \<bar>x\<bar>" using False by (simp add: x_def)
  have "1 \<le> \<bar>n\<bar>" using False by linarith
  then have x1: "1 \<le> \<bar>x\<bar>" unfolding x_def by (metis of_int_1 of_int_abs of_int_le_iff)
  have "\<bar>x\<bar> < 2 ^ 53" using assms unfolding x_def
    by (metis of_int_abs of_int_less_iff of_int_numeral of_int_power)
  then have xh: "\<bar>x\<bar> < pow2 53" by (simp add: pow2_def)
  have "pow2 0 < pow2 (e + 1)" using x1 floor_log2_bounds(2) [OF ax] by (simp add: e_def pow2_def)
  then have e0: "0 \<le> e" by (simp add: pow2_less_iff)
  have "pow2 e < pow2 53" using xh floor_log2_bounds(1) [OF ax] by (simp add: e_def)
  then have e52: "e \<le> 52" by (simp add: pow2_less_iff)
  define k where "k = nat (52 - e)"
  have m: "max e (- 1022) = e" using e0 by simp
  have ulp: "pow2 (e - 52) = 1 / 2 ^ k"
    using e52 pow2_neg_nat [of k] by (simp add: k_def)
  have "x / pow2 (e - 52) = of_int (n * 2 ^ k)" by (simp add: ulp x_def)
  then have "round_half_even (x / pow2 (e - 52)) = n * 2 ^ k"
    by (simp only: round_half_even_of_int)
  then have "rounded x = of_int (n * 2 ^ k) * (1 / 2 ^ k)"
    by (simp add: rounded_def Let_def e_def [symmetric] m ulp)
  then show ?thesis by (simp add: x_def)
qed

lemma float_of_int_exact:
  assumes "\<bar>n\<bar> < 2 ^ 53"
  shows "float_of_int n = Inr (of_int n)"
proof (cases "n = 0")
  case True
  then show ?thesis by (simp add: float_of_int_def round_binary64_def)
next
  case False
  have "\<bar>rat_of_int n\<bar> < 2 ^ 53" using assms
    by (metis of_int_abs of_int_less_iff of_int_numeral of_int_power)
  also have "(2::rat) ^ 53 \<le> pow2 1024" using pow2_mono [of 53 1024] by (simp add: pow2_def)
  finally have "\<not> pow2 1024 \<le> \<bar>rounded (of_int n)\<bar>"
    by (simp add: rounded_of_int [OF assms])
  then show ?thesis using False
    by (simp add: float_of_int_def round_binary64_rounded rounded_of_int [OF assms])
qed


lemma rounded_zero: "rounded 0 = 0"
  by (simp add: rounded_def Let_def round_half_even_def)

lemma float_of_int_nonzero:
  assumes "float_of_int e = Inr ef" and "e \<noteq> 0"
  shows "ef \<noteq> 0"
proof -
  define x :: rat where "x = of_int e"
  have x0: "x \<noteq> 0" using assms(2) by (simp add: x_def)
  then have ax: "0 < \<bar>x\<bar>" by simp
  have "1 \<le> \<bar>e\<bar>" using assms(2) by linarith
  then have "1 \<le> \<bar>x\<bar>" unfolding x_def by (metis of_int_1 of_int_abs of_int_le_iff)
  then have "pow2 0 < pow2 (floor_log2 \<bar>x\<bar> + 1)"
    using floor_log2_bounds(2) [OF ax] by (simp add: pow2_def)
  then have "0 \<le> floor_log2 \<bar>x\<bar>" by (simp add: pow2_less_iff)
  then have n: "- 1022 \<le> floor_log2 \<bar>x\<bar>" by simp
  have "0 < \<bar>rounded x\<bar>"
    using rounded_normal(2) [OF x0 n] pow2_pos [of "floor_log2 \<bar>x\<bar>"] by linarith
  then have r0: "rounded x \<noteq> 0" by simp
  have "round_binary64 x = Finite ef"
    using assms(1) by (auto simp: float_of_int_def x_def split: pyfloat.splits)
  then have "ef = rounded x"
    using x0 by (simp add: round_binary64_rounded split: if_splits)
  then show ?thesis using r0 by simp
qed

lemma compute_ratio_no_zero_division: "compute_ratio n e \<noteq> Inl ZeroDivisionError"
proof (cases "e = 0")
  case True
  then show ?thesis by (simp add: compute_ratio_def)
next
  case False
  show ?thesis
  proof (cases "float_of_int e")
    case (Inl err)
    then have "err = OverflowError" by (auto simp: float_of_int_def split: pyfloat.splits)
    with Inl False show ?thesis by (simp add: compute_ratio_def)
  next
    case (Inr ef)
    then have ef: "ef \<noteq> 0" using False by (rule float_of_int_nonzero)
    show ?thesis
    proof (cases "float_of_int n")
      case (Inl err)
      then have "err = OverflowError" by (auto simp: float_of_int_def split: pyfloat.splits)
      with Inl Inr False show ?thesis by (simp add: compute_ratio_def)
    next
      case nf: (Inr nf)
      with Inr False ef show ?thesis by (simp add: compute_ratio_def float_div_def)
    qed
  qed
qed

lemma rat_abs_bounds:
  assumes "n \<noteq> 0" and "\<bar>n\<bar> < 2 ^ 53"
  shows "1 \<le> \<bar>rat_of_int n\<bar> \<and> \<bar>rat_of_int n\<bar> < 2 ^ 53"
proof -
  have "1 \<le> \<bar>n\<bar>" using assms(1) by linarith
  then have "rat_of_int 1 \<le> rat_of_int \<bar>n\<bar>" by (simp only: of_int_le_iff)
  moreover have "rat_of_int \<bar>n\<bar> < rat_of_int (2 ^ 53)" using assms(2) by (simp only: of_int_less_iff)
  ultimately show ?thesis by simp
qed

lemma compute_ratio_in_range:
  assumes e0: "e \<noteq> 0" and n: "\<bar>n\<bar> < 2 ^ 53" and e: "\<bar>e\<bar> < 2 ^ 53"
  defines "exact \<equiv> rat_of_int n / rat_of_int e * 100"
  defines "ratio \<equiv> rounded (rounded (rat_of_int n / rat_of_int e) * 100)"
  shows "compute_ratio n e = Inr (Finite ratio)"
    and "\<bar>ratio - exact\<bar> \<le> \<bar>exact\<bar> / 2 ^ 51"
proof -
  define x where "x = rat_of_int n / rat_of_int e"
  have re: "rat_of_int e \<noteq> 0" using e0 by simp
  have step: "compute_ratio n e = Inr (float_mul (round_binary64 x) 100)"
    using e0 re by (simp add: compute_ratio_def float_of_int_exact [OF n] float_of_int_exact [OF e]
        float_div_def x_def)
  show "compute_ratio n e = Inr (Finite ratio)" "\<bar>ratio - exact\<bar> \<le> \<bar>exact\<bar> / 2 ^ 51"
  proof -
    have "compute_ratio n e = Inr (Finite ratio) \<and> \<bar>ratio - exact\<bar> \<le> \<bar>exact\<bar> / 2 ^ 51"
    proof (cases "n = 0")
      case True
      then have x0: "x = 0" by (simp add: x_def)
      have "float_mul (round_binary64 x) 100 = Finite 0" by (simp add: x0 round_binary64_def)
      then have "compute_ratio n e = Inr (Finite 0)" by (simp only: step)
      moreover have "ratio = 0" "exact = 0"
        using True by (simp_all add: ratio_def exact_def rounded_zero)
      ultimately show ?thesis by simp
    next
      case False
      have an: "1 \<le> \<bar>rat_of_int n\<bar>" "\<bar>rat_of_int n\<bar> < 2 ^ 53"
        using rat_abs_bounds [OF False n] by simp_all
      have ae: "1 \<le> \<bar>rat_of_int e\<bar>" "\<bar>rat_of_int e\<bar> < 2 ^ 53"
        using rat_abs_bounds [OF e0 e] by simp_all
      have ax: "\<bar>x\<bar> = \<bar>rat_of_int n\<bar> / \<bar>rat_of_int e\<bar>" by (simp add: x_def)
      have "1 / 2 ^ 53 \<le> 1 / \<bar>rat_of_int e\<bar>" using ae by (simp add: frac_le)
      also have "\<dots> \<le> \<bar>x\<bar>" using an ae by (simp add: ax divide_right_mono)
      finally have xlo: "pow2 (- 53) \<le> \<bar>x\<bar>" by (simp add: pow2_def)
      have "\<bar>x\<bar> \<le> \<bar>rat_of_int n\<bar> / 1" unfolding ax using ae an by (intro frac_le) simp_all
      then have xhi: "\<bar>x\<bar> < pow2 53" using an by (simp add: pow2_def)
      note q = round_binary64_in_range [OF xlo xhi]
      define q where "q = rounded x"
      have q1: "round_binary64 x = Finite q" using q(1) by (simp add: q_def)
      have q2: "\<bar>q - x\<bar> \<le> \<bar>x\<bar> / 2 ^ 53" using q(2) by (simp add: q_def)
      have q3: "pow2 (- 53) \<le> \<bar>q\<bar>" using q(3) by (simp add: q_def)
      have q4: "\<bar>q\<bar> < pow2 54" using q(4) by (simp add: q_def)
      have qpos: "0 \<le> \<bar>q\<bar>" by simp
      have ylo: "pow2 (- 53) \<le> \<bar>q * 100\<bar>" using q3 qpos by (simp add: abs_mult)
      have "\<bar>q * 100\<bar> < 128 * pow2 54" using q4 qpos by (simp add: abs_mult)
      also have "\<dots> = pow2 61" by (simp add: pow2_def)
      finally have yhi: "\<bar>q * 100\<bar> < pow2 61" .
      note r = round_binary64_in_range [OF ylo yhi]
      have r1: "round_binary64 (q * 100) = Finite ratio" using r(1) by (simp add: ratio_def q_def x_def)
      have r2: "\<bar>ratio - q * 100\<bar> \<le> \<bar>q * 100\<bar> / 2 ^ 53" using r(2) by (simp add: ratio_def q_def x_def)
      have c1: "compute_ratio n e = Inr (Finite ratio)" by (simp add: step q1 r1)
      have X: "0 \<le> \<bar>x\<bar>" by simp
      have "\<bar>q\<bar> \<le> \<bar>x\<bar> + \<bar>x\<bar> / 2 ^ 53" using q2 by linarith
      also have "\<dots> \<le> 2 * \<bar>x\<bar>" using X by (simp add: field_simps)
      finally have qb: "\<bar>q\<bar> \<le> 2 * \<bar>x\<bar>" .
      have "\<bar>q * 100\<bar> = 100 * \<bar>q\<bar>" by (simp add: abs_mult)
      then have "\<bar>q * 100\<bar> \<le> 200 * \<bar>x\<bar>" using qb by linarith
      then have "\<bar>q * 100\<bar> / 2 ^ 53 \<le> (200 * \<bar>x\<bar>) / 2 ^ 53"
        by (rule divide_right_mono) simp
      with r2 have t1: "\<bar>ratio - q * 100\<bar> \<le> (200 * \<bar>x\<bar>) / 2 ^ 53" by linarith
      have eq: "q * 100 - x * 100 = 100 * (q - x)" by (simp add: algebra_simps)
      have "\<bar>q * 100 - x * 100\<bar> = 100 * \<bar>q - x\<bar>" unfolding eq abs_mult by simp
      also have "\<dots> \<le> 100 * (\<bar>x\<bar> / 2 ^ 53)" by (rule mult_left_mono [OF q2]) simp
      finally have t2: "\<bar>q * 100 - x * 100\<bar> \<le> (100 * \<bar>x\<bar>) / 2 ^ 53" by simp
      have "\<bar>ratio - x * 100\<bar> \<le> \<bar>ratio - q * 100\<bar> + \<bar>q * 100 - x * 100\<bar>" by linarith
      also have "\<dots> \<le> (200 * \<bar>x\<bar>) / 2 ^ 53 + (100 * \<bar>x\<bar>) / 2 ^ 53" using t1 t2 by linarith
      also have "\<dots> = (300 * \<bar>x\<bar>) / 2 ^ 53" by (simp flip: add_divide_distrib)
      also have "\<dots> \<le> (400 * \<bar>x\<bar>) / 2 ^ 53" using X by (intro divide_right_mono) simp_all
      also have "\<dots> = \<bar>x * 100\<bar> / 2 ^ 51" by (simp add: abs_mult)
      finally have "\<bar>ratio - exact\<bar> \<le> \<bar>exact\<bar> / 2 ^ 51" by (simp add: exact_def x_def)
      with c1 show ?thesis by simp
    qed
    then show "compute_ratio n e = Inr (Finite ratio)" "\<bar>ratio - exact\<bar> \<le> \<bar>exact\<bar> / 2 ^ 51"
      by simp_all
  qed
qed

subsection \<open>Evaluating the rounding on numerals\<close>

lemma bit_length_0: "bit_length 0 = 0" by (simp add: bit_length.simps)
lemma bit_length_1: "bit_length 1 = 1" "bit_length (Suc 0) = 1" by (simp_all add: bit_length.simps)
lemma bit_length_numeral: "bit_length (numeral k) = Suc (bit_length (numeral k div 2))"
  by (subst bit_length.simps) simp
lemma floor_rat_numeral: "\<lfloor>numeral a / numeral b :: rat\<rfloor> = numeral a div numeral b"
  by (metis floor_divide_of_int_eq of_int_numeral)
lemma floor_rat_neg_numeral: "\<lfloor>- (numeral a / numeral b) :: rat\<rfloor> = - numeral a div numeral b"
  by (metis divide_minus_left floor_divide_of_int_eq of_int_neg_numeral of_int_numeral)
lemma ceiling_rat_numeral: "\<lceil>numeral a / numeral b :: rat\<rceil> = - (- numeral a div numeral b)"
  by (simp add: ceiling_def floor_rat_neg_numeral)
lemmas float_eval = compute_ratio_def float_of_int_def float_div_def
  round_binary64_def rounded_def floor_log2_def round_half_even_def pow2_def Let_def
  bit_length_0 bit_length_1 bit_length_numeral floor_rat_numeral floor_rat_neg_numeral ceiling_rat_numeral


section \<open>Facts about the loop and the events\<close>

lemma is_under_replicated_no_zero_division: "is_under_replicated n e c \<noteq> Inl ZeroDivisionError"
  using compute_ratio_no_zero_division [of n e]
  by (auto simp: is_under_replicated_def split: sum.splits)

lemma location_line_no_zero_division: "location_line v fn n e loc r \<noteq> Inl ZeroDivisionError"
  by (cases r) (simp_all add: location_line_def)

lemma check_locations_no_zero_division:
  "check_locations fn epl crit items out unders \<noteq> Inl ZeroDivisionError"
proof (induction items arbitrary: out unders)
  case Nil
  show ?case by simp
next
  case (Cons item items)
  obtain loc backends where item: "item = (loc, backends)" by (cases item)
  show ?case
    using Cons.IH is_under_replicated_no_zero_division [of "dict_get backends fn 0" epl crit]
      location_line_no_zero_division
    by (auto simp: item Let_def split: sum.splits prod.splits if_splits)
qed

lemma sorted_items_set: "(k, v) \<in> set (sorted_items d) \<longleftrightarrow> fmlookup d k = Some v"
  by (auto simp: sorted_items_def sorted_list_of_fmap_def fmdom.rep_eq dom_def image_iff
      sorted_list_of_fset_simps)

lemma sorted_items_keys:
  "map fst (sorted_items d) = sorted_list_of_fset (fmdom d)"
  by (simp add: sorted_items_def sorted_list_of_fmap_def comp_def)

lemma length_sorted_items: "length (sorted_items d) = dict_len d"
  by (simp add: sorted_items_def sorted_list_of_fmap_def dict_len_def fcard.rep_eq
      sorted_list_of_fset.rep_eq)

text \<open>What the loop computes, entry by entry.\<close>

lemma check_locations_Inr:
  assumes "check_locations fn epl crit items out unders = Inr (out', unders')"
  shows "\<exists>rows. length rows = length items \<and>
           out' = out @ concat (map fst rows) \<and> unders' = unders @ map snd rows \<and>
           (\<forall>k < length items. \<exists>ratio shown.
              compute_ratio (dict_get (snd (items ! k)) fn 0) epl = Inr ratio \<and>
              format_d_float ratio = Inr shown \<and>
              snd (rows ! k) = float_less_int ratio crit \<and>
              fst (rows ! k) =
                ''- Service '' @ fn @ '' has '' @ format_d (dict_get (snd (items ! k)) fn 0) @
                '' out of '' @ format_d epl @ '' expected instances in '' @ fst (items ! k) @
                '' ('' @ (if float_less_int ratio crit then ''CRITICAL'' else ''OK'') @ '': '' @
                shown @ ''%)'' @ [CHR 0x0A])"
  using assms
proof (induction items arbitrary: out unders)
  case Nil
  then show ?case by simp
next
  case (Cons item items)
  obtain loc backends where item: "item = (loc, backends)" by (cases item)
  define num where "num = dict_get backends fn 0"
  from Cons.prems obtain under ratio where u: "is_under_replicated num epl crit = Inr (under, ratio)"
    by (auto simp: item num_def Let_def split: sum.splits prod.splits)
  then have cr: "compute_ratio num epl = Inr ratio" and un: "under = float_less_int ratio crit"
    by (auto simp: is_under_replicated_def split: sum.splits if_splits)
  from Cons.prems u obtain line where
    l: "location_line (if under then ''CRITICAL'' else ''OK'') fn num epl loc ratio = Inr line"
    and rest: "check_locations fn epl crit items (out @ line) (unders @ [under]) = Inr (out', unders')"
    by (auto simp: item num_def [symmetric] Let_def split: sum.splits prod.splits if_splits)
  from l obtain shown where sh: "format_d_float ratio = Inr shown"
    and line: "line = ''- Service '' @ fn @ '' has '' @ format_d num @
                '' out of '' @ format_d epl @ '' expected instances in '' @ loc @
                '' ('' @ (if under then ''CRITICAL'' else ''OK'') @ '': '' @
                shown @ ''%)'' @ [CHR 0x0A]"
    by (auto simp: location_line_def split: sum.splits)
  from Cons.IH [OF rest] obtain rows where rows: "length rows = length items"
    "out' = (out @ line) @ concat (map fst rows)" "unders' = (unders @ [under]) @ map snd rows"
    "\<forall>k < length items. \<exists>ratio shown.
              compute_ratio (dict_get (snd (items ! k)) fn 0) epl = Inr ratio \<and>
              format_d_float ratio = Inr shown \<and>
              snd (rows ! k) = float_less_int ratio crit \<and>
              fst (rows ! k) =
                ''- Service '' @ fn @ '' has '' @ format_d (dict_get (snd (items ! k)) fn 0) @
                '' out of '' @ format_d epl @ '' expected instances in '' @ fst (items ! k) @
                '' ('' @ (if float_less_int ratio crit then ''CRITICAL'' else ''OK'') @ '': '' @
                shown @ ''%)'' @ [CHR 0x0A]"
    by blast
  show ?case
  proof (intro exI [of _ "(line, under) # rows"] conjI allI impI)
    show "length ((line, under) # rows) = length (item # items)" using rows(1) by simp
    show "out' = out @ concat (map fst ((line, under) # rows))" using rows(2) by simp
    show "unders' = unders @ map snd ((line, under) # rows)" using rows(3) by simp
    fix k assume k: "k < length (item # items)"
    show "\<exists>ratio shown.
              compute_ratio (dict_get (snd ((item # items) ! k)) fn 0) epl = Inr ratio \<and>
              format_d_float ratio = Inr shown \<and>
              snd (((line, under) # rows) ! k) = float_less_int ratio crit \<and>
              fst (((line, under) # rows) ! k) =
                ''- Service '' @ fn @ '' has '' @ format_d (dict_get (snd ((item # items) ! k)) fn 0) @
                '' out of '' @ format_d epl @ '' expected instances in '' @ fst ((item # items) ! k) @
                '' ('' @ (if float_less_int ratio crit then ''CRITICAL'' else ''OK'') @ '': '' @
                shown @ ''%)'' @ [CHR 0x0A]"
    proof (cases k)
      case 0
      then show ?thesis using cr sh un line by (simp add: item num_def)
    next
      case (Suc j)
      then have "j < length items" using k by simp
      with rows(4) Suc show ?thesis by simp
    qed
  qed
qed

lemma example_info_len: "dict_len example_info = 3"
  by code_simp

lemma example_info_keys:
  "sorted_list_of_fset (fmdom example_info) = [''dc-a'', ''dc-b'', ''dc-c'']"
  by code_simp

lemma example_info_items:
  "sorted_items example_info =
     [(''dc-a'', [''svc.main'' \<mapsto> 3]), (''dc-b'', [''svc.main'' \<mapsto> 1]), (''dc-c'', Map.empty)]"
  by (simp add: sorted_items_def sorted_list_of_fmap_def example_info_keys)
     (simp add: example_info_def)

lemma digit_char_table:
  "digit_char 0 = CHR ''0''" "digit_char 1 = CHR ''1''" "digit_char (Suc 0) = CHR ''1''"
  "digit_char 2 = CHR ''2''" "digit_char 3 = CHR ''3''" "digit_char 4 = CHR ''4''"
  "digit_char 5 = CHR ''5''" "digit_char 6 = CHR ''6''" "digit_char 7 = CHR ''7''"
  "digit_char 8 = CHR ''8''" "digit_char 9 = CHR ''9''"
  by code_simp+
lemma digits_0: "digits 0 = ''0''" by (simp add: digits.simps digit_char_table)
lemma digits_1: "digits 1 = ''1''" "digits (Suc 0) = ''1''" by (simp_all add: digits.simps digit_char_table)
lemma digits_numeral:
  "digits (numeral k) =
     (if numeral k < (10::nat) then [digit_char (numeral k)]
      else digits (numeral k div 10) @ [digit_char (numeral k mod 10)])"
  by (rule digits.simps)
lemmas format_eval = format_d_def digits_0 digits_1 digits_numeral digit_char_table truncate_rat_def

lemma send_event_fields:
  "ev \<in> set (send_event E service instance soa_dir st out) \<Longrightarrow>
   ev_status ev = st \<and> ev_output ev = out \<and>
   ev_check_name ev = ''check_marathon_services_replication.'' @ service @ ID_SPACER E @ instance"
  by (auto simp: send_event_def Let_def split: if_splits)

lemma send_event_single:
  "py_truthy (get_team E ''marathon'' service soa_dir) \<Longrightarrow>
   \<exists>ev. send_event E service instance soa_dir st out = [ev]"
  by (simp add: send_event_def Let_def)

lemma compute_ratio_zero: "compute_ratio n 0 = Inr (Finite 100)"
  by (simp add: compute_ratio_def)

lemma compute_ratio_1_4: "compute_ratio 1 4 = Inr (Finite 25)"
  by (simp add: float_eval)

subsection \<open>The example run\<close>

lemma compute_ratio_3_3: "compute_ratio 3 3 = Inr (Finite 100)"
  by (simp add: float_eval)
lemma compute_ratio_1_3: "compute_ratio 1 3 = Inr (Finite (2345624805922133 / 70368744177664))"
  by (simp add: float_eval)
lemma compute_ratio_0_3: "compute_ratio 0 3 = Inr (Finite 0)"
  by (simp add: float_eval)
lemma example_loop: "check_locations ''svc.main'' 3 50 (sorted_items example_info) [] [] =
     Inr (''- Service svc.main has 3 out of 3 expected instances in dc-a (OK: 100%)'' @ [CHR 0x0A] @
           ''- Service svc.main has 1 out of 3 expected instances in dc-b (CRITICAL: 33%)'' @ [CHR 0x0A] @
           ''- Service svc.main has 0 out of 3 expected instances in dc-c (CRITICAL: 0%)'' @ [CHR 0x0A],
          [False, True, True])"
    by (simp add: example_info_items dict_get_def is_under_replicated_def compute_ratio_3_3
        compute_ratio_1_3 compute_ratio_0_3 location_line_def format_eval floor_rat_numeral)

lemma example_run_full:
  "check_smartstack_replication_for_instance example_env ''svc'' ''main'' example_info
     ''/soa'' 50 10 = Inr [example_event]"
proof -
  have ns: "read_namespace_for_service_instance example_env ''svc'' ''main'' ''/soa'' = ''main''"
    by (simp add: example_env_def)
  have fn: "full_name_of example_env ''svc'' ''main'' = ''svc.main''"
    by (simp add: full_name_of_def example_env_def)
  have epl: "expected_count_per_location 10 example_info = Inr 3"
    by (simp add: expected_count_per_location_def py_int_div_def example_info_len)
  have ctx: "get_context example_env ''svc'' ''main'' = ''recent deploys''"
    by (simp add: example_env_def)
  have run: "check_smartstack_replication_for_instance example_env ''svc'' ''main'' example_info
        ''/soa'' 50 10 =
     Inr (send_event example_env ''svc'' ''main'' ''/soa'' CRITICAL
       (add_context_to_event example_env ''svc'' ''main''
         (''- Service svc.main has 3 out of 3 expected instances in dc-a (OK: 100%)'' @ [CHR 0x0A] @
           ''- Service svc.main has 1 out of 3 expected instances in dc-b (CRITICAL: 33%)'' @ [CHR 0x0A] @
           ''- Service svc.main has 0 out of 3 expected instances in dc-c (CRITICAL: 0%)'' @ [CHR 0x0A])))"
    unfolding check_smartstack_replication_for_instance_def Let_def ns fn epl
    by (simp add: example_loop example_info_len)
  have ev: "send_event example_env ''svc'' ''main'' ''/soa'' CRITICAL out =
     [\<lparr>ev_check_name = ''check_marathon_services_replication.svc.main'',
      ev_runbook = PyStr ''y/rb-replication'',
      ev_status = CRITICAL,
      ev_output = out,
      ev_team = PyStr ''operations'',
      ev_result_dict =
        [(''tip'', PyNone), (''notification_email'', PyNone), (''page'', PyBool True),
         (''irc_channels'', PyList []), (''ticket'', PyBool False), (''project'', PyNone),
         (''alert_after'', PyStr ''2m''), (''check_every'', PyStr ''1m''),
         (''realert_every'', PyInt (- 1)), (''source'', PyStr ''paasta-norcal'')]\<rparr>]" for out
    by (simp add: send_event_def Let_def example_env_def)
  show ?thesis
    unfolding run ev by (simp add: add_context_to_event_def ctx example_event_def)
qed

lemma sum_locations: "(\<Sum>location \<in> fset (fmdom d). k) = int (dict_len d) * k"
  by (simp add: dict_len_def fcard.rep_eq)

subsection \<open>Entries in sorted order\<close>

lemma sorted_list_of_fset_strict: "sorted_wrt (<) (sorted_list_of_fset S)"
  by (simp add: sorted_list_of_fset.rep_eq strict_sorted_iff)

lemma format_d_float_Inr:
  "format_d_float ratio = Inr shown \<Longrightarrow> \<exists>r. ratio = Finite r \<and> shown = format_d (truncate_rat r)"
  by (cases ratio) auto

lemma sorted_items_nth:
  assumes "k < length (sorted_items d)"
  shows "fst (sorted_items d ! k) = sorted_list_of_fset (fmdom d) ! k"
    and "fmlookup d (sorted_list_of_fset (fmdom d) ! k) = Some (snd (sorted_items d ! k))"
proof -
  show f: "fst (sorted_items d ! k) = sorted_list_of_fset (fmdom d) ! k"
    using assms nth_map [of k "sorted_items d" fst] by (simp add: sorted_items_keys)
  have "(fst (sorted_items d ! k), snd (sorted_items d ! k)) \<in> set (sorted_items d)"
    using assms by simp
  then have "fmlookup d (fst (sorted_items d ! k)) = Some (snd (sorted_items d ! k))"
    by (simp only: sorted_items_set)
  then show "fmlookup d (sorted_list_of_fset (fmdom d) ! k) = Some (snd (sorted_items d ! k))"
    by (simp only: f)
qed

lemma ex_conj_weaken: "\<exists>x. A x \<and> B x \<and> C x \<Longrightarrow> \<exists>x. A x \<and> B x"
  by blast

subsection \<open>The check returns for counts below \<open>2^53\<close>\<close>

text \<open>The only exceptions of the discovery path come from the float arithmetic on
  astronomically large counts (\<^verbatim>\<open>float(n)\<close> overflowing, or \<^verbatim>\<open>%d\<close> applied to an
  infinite ratio). For counts below \<open>2^53\<close> in magnitude the check returns.\<close>

lemma abs_div_le_abs:
  fixes e n :: int
  assumes "0 < n"
  shows "\<bar>e div n\<bar> \<le> \<bar>e\<bar>"
proof (cases "0 \<le> e")
  case True
  have n1: "1 \<le> n" using assms by simp
  have "e div n \<le> e div 1" using True n1 by (intro zdiv_mono2) simp_all
  moreover have "0 \<le> e div n" using True assms by (simp add: pos_imp_zdiv_nonneg_iff)
  ultimately show ?thesis using True by simp
next
  case False
  then have neg: "e < 0" by simp
  have n1: "1 \<le> n" using assms by simp
  have "e div 1 \<le> e div n" using neg n1 by (intro zdiv_mono2_neg) simp_all
  moreover have "e div n < 0" using neg assms by (simp add: pos_imp_zdiv_neg_iff)
  ultimately show ?thesis using neg by simp
qed

lemma is_under_replicated_returns:
  assumes "\<bar>n\<bar> < 2 ^ 53" and "\<bar>e\<bar> < 2 ^ 53"
  shows "\<exists>r. is_under_replicated n e c = Inr (r < of_int c, Finite r)"
proof (cases "e = 0")
  case True
  then show ?thesis by (simp add: is_under_replicated_def compute_ratio_zero)
next
  case False
  from compute_ratio_in_range(1) [OF False assms] show ?thesis
    by (simp add: is_under_replicated_def)
qed

lemma check_locations_returns:
  assumes "\<forall>item \<in> set items. \<bar>dict_get (snd item) fn 0\<bar> < 2 ^ 53" and "\<bar>epl\<bar> < 2 ^ 53"
  shows "\<exists>out' unders'. check_locations fn epl crit items out unders = Inr (out', unders')"
  using assms(1)
proof (induction items arbitrary: out unders)
  case Nil
  show ?case by simp
next
  case (Cons item items)
  obtain loc backends where item: "item = (loc, backends)" by (cases item)
  from Cons.prems have n: "\<bar>dict_get backends fn 0\<bar> < 2 ^ 53" by (simp add: item)
  from is_under_replicated_returns [OF n assms(2), of crit] obtain r where
    r: "is_under_replicated (dict_get backends fn 0) epl crit = Inr (r < of_int crit, Finite r)"
    by blast
  from Cons.prems have rest: "\<forall>item \<in> set items. \<bar>dict_get (snd item) fn 0\<bar> < 2 ^ 53" by simp
  show ?case
    using Cons.IH [OF rest] by (simp add: item Let_def r location_line_def)
qed

lemma check_smartstack_returns:
  assumes "\<bar>expected_count\<bar> < 2 ^ 53"
    and "\<forall>location available_backends.
           fmlookup smartstack_replication_info location = Some available_backends \<longrightarrow>
           \<bar>dict_get available_backends (service @ ID_SPACER E @ instance) 0\<bar> < 2 ^ 53"
  shows "\<exists>evs. check_smartstack_replication_for_instance E service instance
                 smartstack_replication_info soa_dir crit_threshold expected_count = Inr evs"
proof (cases "read_namespace_for_service_instance E service instance soa_dir = instance \<and>
              dict_len smartstack_replication_info \<noteq> 0")
  case False
  then show ?thesis
    by (auto simp: check_smartstack_replication_for_instance_def Let_def)
next
  case True
  define fn where "fn = service @ ID_SPACER E @ instance"
  define epl where "epl = expected_count div int (dict_len smartstack_replication_info)"
  have e: "expected_count_per_location expected_count smartstack_replication_info = Inr epl"
    using True by (simp add: expected_count_per_location_def py_int_div_def epl_def)
  have f: "full_name_of E service instance = fn" by (simp add: full_name_of_def fn_def)
  have "\<bar>epl\<bar> \<le> \<bar>expected_count\<bar>" unfolding epl_def using True by (intro abs_div_le_abs) simp
  then have b: "\<bar>epl\<bar> < 2 ^ 53" using assms(1) by linarith
  have a: "\<forall>item \<in> set (sorted_items smartstack_replication_info).
             \<bar>dict_get (snd item) fn 0\<bar> < 2 ^ 53"
  proof
    fix item assume "item \<in> set (sorted_items smartstack_replication_info)"
    then have "(fst item, snd item) \<in> set (sorted_items smartstack_replication_info)" by simp
    then have "fmlookup smartstack_replication_info (fst item) = Some (snd item)"
      by (simp only: sorted_items_set)
    with assms(2) show "\<bar>dict_get (snd item) fn 0\<bar> < 2 ^ 53" unfolding fn_def by blast
  qed
  from check_locations_returns [OF a b, of crit_threshold "[]" "[]"] obtain out unders where
    "check_locations fn epl crit_threshold (sorted_items smartstack_replication_info) [] []
       = Inr (out, unders)" by blast
  then show ?thesis
    using True unfolding check_smartstack_replication_for_instance_def Let_def e f by simp
qed

subsection \<open>The loop, location by location\<close>

lemma check_locations_collect:
  "check_locations fn epl crit items out unders =
     (case collect_rows (map (location_row fn epl crit) items) of
        Inl err \<Rightarrow> Inl err
      | Inr rows \<Rightarrow> Inr (out @ concat (map fst rows), unders @ map snd rows))"
proof (induction items arbitrary: out unders)
  case Nil
  show ?case by simp
next
  case (Cons item items)
  obtain loc backends where item: "item = (loc, backends)" by (cases item)
  show ?case
  proof (cases "is_under_replicated (dict_get backends fn 0) epl crit")
    case (Inl err)
    then show ?thesis by (simp add: item location_row_def Let_def)
  next
    case (Inr ur)
    obtain under ratio where ur: "ur = (under, ratio)" by (cases ur)
    show ?thesis
    proof (cases "location_line (if under then ''CRITICAL'' else ''OK'') fn
                    (dict_get backends fn 0) epl loc ratio")
      case (Inl err)
      then show ?thesis using Inr by (simp add: item ur location_row_def Let_def split: if_splits)
    next
      case line: (Inr line)
      have row: "location_row fn epl crit (loc, backends) = Inr (line, under)"
        using Inr line by (simp add: ur location_row_def Let_def)
      have step: "check_locations fn epl crit ((loc, backends) # items) out unders =
                  check_locations fn epl crit items (out @ line) (unders @ [under])"
        using Inr line by (simp add: ur Let_def split: if_splits)
      show ?thesis
        unfolding item step Cons.IH by (simp add: row split: sum.splits)
    qed
  qed
qed

lemma div_without_remainder:
  fixes e n :: int
  assumes "n \<noteq> 0"
  shows "(e - e mod n) div n = e div n"
proof -
  have "e - e mod n = n * (e div n)" by (rule minus_mod_eq_mult_div)
  then show ?thesis using assms by simp
qed

lemma any_under_iff:
  assumes loop: "check_locations fn epl crit items [] [] = Inr (out, unders)"
    and items: "items = sorted_items d"
  shows "list_ex (\<lambda>b. b) unders \<longleftrightarrow>
         (\<exists>location available_backends ratio.
            fmlookup d location = Some available_backends \<and>
            compute_ratio (dict_get available_backends fn 0) epl = Inr ratio \<and>
            float_less_int ratio crit)"
proof -
  from check_locations_Inr [OF loop] obtain rows where
    len: "length rows = length items" and un: "unders = map snd rows"
    and rows: "\<forall>k < length items. \<exists>ratio shown.
              compute_ratio (dict_get (snd (items ! k)) fn 0) epl = Inr ratio \<and>
              format_d_float ratio = Inr shown \<and>
              snd (rows ! k) = float_less_int ratio crit \<and>
              fst (rows ! k) =
                ''- Service '' @ fn @ '' has '' @ format_d (dict_get (snd (items ! k)) fn 0) @
                '' out of '' @ format_d epl @ '' expected instances in '' @ fst (items ! k) @
                '' ('' @ (if float_less_int ratio crit then ''CRITICAL'' else ''OK'') @ '': '' @
                shown @ ''%)'' @ [CHR 0x0A]"
    by auto
  show ?thesis
  proof
    assume "list_ex (\<lambda>b. b) unders"
    then obtain k where k: "k < length rows" "snd (rows ! k)"
      unfolding un by (auto simp: list_ex_iff in_set_conv_nth)
    with rows len obtain ratio where
      r: "compute_ratio (dict_get (snd (items ! k)) fn 0) epl = Inr ratio"
         "float_less_int ratio crit"
      by force
    have "(fst (items ! k), snd (items ! k)) \<in> set items" using k(1) len by simp
    then have "fmlookup d (fst (items ! k)) = Some (snd (items ! k))"
      unfolding items by (simp only: sorted_items_set)
    with r show "\<exists>location available_backends ratio.
            fmlookup d location = Some available_backends \<and>
            compute_ratio (dict_get available_backends fn 0) epl = Inr ratio \<and>
            float_less_int ratio crit" by blast
  next
    assume "\<exists>location available_backends ratio.
            fmlookup d location = Some available_backends \<and>
            compute_ratio (dict_get available_backends fn 0) epl = Inr ratio \<and>
            float_less_int ratio crit"
    then obtain location available_backends ratio where
      l: "fmlookup d location = Some available_backends"
      and r: "compute_ratio (dict_get available_backends fn 0) epl = Inr ratio"
             "float_less_int ratio crit"
      by blast
    from l have "(location, available_backends) \<in> set items"
      unfolding items by (simp only: sorted_items_set)
    then obtain k where k: "k < length items" "items ! k = (location, available_backends)"
      by (auto simp: in_set_conv_nth)
    with rows r have "snd (rows ! k)" by force
    moreover have "rows ! k \<in> set rows" using k(1) len by simp
    ultimately have "\<exists>b \<in> set rows. snd b" by blast
    then show "list_ex (\<lambda>b. b) unders"
      unfolding un by (simp add: list_ex_iff)
  qed
qed

subsection \<open>The example run with a threshold of 0\<close>

lemma example_loop_ok: "check_locations ''svc.main'' 3 0 (sorted_items example_info) [] [] =
     Inr (''- Service svc.main has 3 out of 3 expected instances in dc-a (OK: 100%)'' @ [CHR 0x0A] @
           ''- Service svc.main has 1 out of 3 expected instances in dc-b (OK: 33%)'' @ [CHR 0x0A] @
           ''- Service svc.main has 0 out of 3 expected instances in dc-c (OK: 0%)'' @ [CHR 0x0A],
          [False, False, False])"
    by (simp add: example_info_items dict_get_def is_under_replicated_def compute_ratio_3_3
        compute_ratio_1_3 compute_ratio_0_3 location_line_def format_eval floor_rat_numeral)

lemma example_run_ok:
  "check_smartstack_replication_for_instance example_env ''svc'' ''main'' example_info
     ''/soa'' 0 10 = Inr [example_event_ok]"
proof -
  have ns: "read_namespace_for_service_instance example_env ''svc'' ''main'' ''/soa'' = ''main''"
    by (simp add: example_env_def)
  have fn: "full_name_of example_env ''svc'' ''main'' = ''svc.main''"
    by (simp add: full_name_of_def example_env_def)
  have epl: "expected_count_per_location 10 example_info = Inr 3"
    by (simp add: expected_count_per_location_def py_int_div_def example_info_len)
  have run: "check_smartstack_replication_for_instance example_env ''svc'' ''main'' example_info
        ''/soa'' 0 10 =
     Inr (send_event example_env ''svc'' ''main'' ''/soa'' OK
         (''- Service svc.main has 3 out of 3 expected instances in dc-a (OK: 100%)'' @ [CHR 0x0A] @
           ''- Service svc.main has 1 out of 3 expected instances in dc-b (OK: 33%)'' @ [CHR 0x0A] @
           ''- Service svc.main has 0 out of 3 expected instances in dc-c (OK: 0%)'' @ [CHR 0x0A]))"
    unfolding check_smartstack_replication_for_instance_def Let_def ns fn epl
    by (simp add: example_loop_ok example_info_len)
  have ev: "send_event example_env ''svc'' ''main'' ''/soa'' OK out =
     [\<lparr>ev_check_name = ''check_marathon_services_replication.svc.main'',
      ev_runbook = PyStr ''y/rb-replication'',
      ev_status = OK,
      ev_output = out,
      ev_team = PyStr ''operations'',
      ev_result_dict =
        [(''tip'', PyNone), (''notification_email'', PyNone), (''page'', PyBool True),
         (''irc_channels'', PyList []), (''ticket'', PyBool False), (''project'', PyNone),
         (''alert_after'', PyStr ''2m''), (''check_every'', PyStr ''1m''),
         (''realert_every'', PyInt (- 1)), (''source'', PyStr ''paasta-norcal'')]\<rparr>]" for out
    by (simp add: send_event_def Let_def example_env_def)
  show ?thesis
    unfolding run ev by (simp add: example_event_ok_def)
qed

lemma send_event_status_of:
  "[ev] = send_event E service instance soa_dir st body \<Longrightarrow> ev_status ev = st"
proof -
  assume a: "[ev] = send_event E service instance soa_dir st body"
  have "ev \<in> set [ev]" by simp
  then have "ev \<in> set (send_event E service instance soa_dir st body)" by (simp only: a)
  then show ?thesis by (simp add: send_event_fields)
qed

lemma status_resolve:
  assumes "\<exists>body. [ev] = send_event E service instance soa_dir (if P then CRITICAL else OK) body"
    and "ev_status ev = st"
  shows "\<exists>body. [ev] = send_event E service instance soa_dir st body"
proof -
  from assms(1) obtain body where
    b: "[ev] = send_event E service instance soa_dir (if P then CRITICAL else OK) body" ..
  from send_event_status_of [OF b] assms(2) have "(if P then CRITICAL else OK) = st" by simp
  with b have "[ev] = send_event E service instance soa_dir st body" by simp
  then show ?thesis ..
qed

lemma example_info_bounds:
  "\<forall>location available_backends.
     fmlookup example_info location = Some available_backends \<longrightarrow>
     \<bar>dict_get available_backends (''svc'' @ ID_SPACER example_env @ ''main'') 0\<bar> < 2 ^ 53"
  by (auto simp: example_info_def dict_get_def split: if_splits)

section \<open>Suppression and skipping\<close>

text \<open>
  C8. Whenever the team of the service resolves to nothing (\<^verbatim>\<open>not team\<close>: \<^verbatim>\<open>None\<close>, an
  empty string, ...), \<open>send_event\<close> returns before \<^verbatim>\<open>pysensu_yelp.send_event\<close> is called:
  no event is dispatched, whatever the status, CRITICAL included.
\<close>

theorem send_event_without_team:
  "\<not> py_truthy (get_team E ''marathon'' service_name soa_dir) \<Longrightarrow>
   send_event E service_name namespace soa_dir st out = []"
  by (simp add: send_event_def)

theorem send_event_without_team_witness:
  "\<not> py_truthy (get_team example_env ''marathon'' ''orphan'' ''/nail/etc/services'') \<and>
   send_event example_env ''orphan'' ''main'' ''/nail/etc/services'' CRITICAL ''text'' = []"
proof -
  have h: "\<not> py_truthy (get_team example_env ''marathon'' ''orphan'' ''/nail/etc/services'')"
    by (simp add: example_env_def)
  from send_event_without_team [OF h] h show ?thesis by blast
qed

text \<open>
  C7. When the expected count of an instance cannot be determined (the lookup raises
  \<^verbatim>\<open>NoDeploymentsAvailable\<close>, or returns \<^verbatim>\<open>None\<close>), \<open>check_service_replication\<close> returns
  normally, having evaluated neither path and sent no event.
\<close>

theorem check_service_replication_skips:
  "get_expected_instance_count_for_namespace E service instance soa_dir = NoDeploymentsAvailable \<or>
   get_expected_instance_count_for_namespace E service instance soa_dir = Returned None \<Longrightarrow>
   check_service_replication E service instance crit_threshold smartstack_replication_info soa_dir
     = Inr []"
  by (auto simp: check_service_replication_def)

theorem check_service_replication_skips_witness:
  "(get_expected_instance_count_for_namespace example_env ''svc'' ''undeployed'' ''/soa''
      = NoDeploymentsAvailable \<or>
    get_expected_instance_count_for_namespace example_env ''svc'' ''undeployed'' ''/soa''
      = Returned None) \<and>
   check_service_replication example_env ''svc'' ''undeployed'' 50 fmempty ''/soa'' = Inr [] \<and>
   (get_expected_instance_count_for_namespace example_env ''svc'' ''unknown'' ''/soa''
      = NoDeploymentsAvailable \<or>
    get_expected_instance_count_for_namespace example_env ''svc'' ''unknown'' ''/soa''
      = Returned None) \<and>
   check_service_replication example_env ''svc'' ''unknown'' 50 fmempty ''/soa'' = Inr []"
proof -
  have h1: "get_expected_instance_count_for_namespace example_env ''svc'' ''undeployed'' ''/soa''
      = NoDeploymentsAvailable \<or>
    get_expected_instance_count_for_namespace example_env ''svc'' ''undeployed'' ''/soa''
      = Returned None"
    by (simp add: example_env_def)
  have h2: "get_expected_instance_count_for_namespace example_env ''svc'' ''unknown'' ''/soa''
      = NoDeploymentsAvailable \<or>
    get_expected_instance_count_for_namespace example_env ''svc'' ''unknown'' ''/soa''
      = Returned None"
    by (simp add: example_env_def)
  from check_service_replication_skips [OF h1] check_service_replication_skips [OF h2] h1 h2
  show ?thesis by blast
qed

section \<open>The ratio\<close>




section \<open>Aliased instances\<close>

text \<open>
  C2 (as amended). On the discovery path, an instance whose resolved namespace differs
  from its own name produces no alert event: \<open>check_smartstack_replication_for_instance\<close>
  returns at once, and so does \<open>check_service_replication\<close> for every such instance that
  has a proxy port.
\<close>

theorem aliased_instance_smartstack_silent:
  "read_namespace_for_service_instance E service instance soa_dir \<noteq> instance \<Longrightarrow>
   check_smartstack_replication_for_instance E service instance smartstack_replication_info
     soa_dir crit_threshold expected_count = Inr [] \<and>
   (get_proxy_port_for_instance E service instance soa_dir \<noteq> None \<longrightarrow>
    check_service_replication E service instance crit_threshold smartstack_replication_info soa_dir
      = Inr [])"
  by (auto simp: check_smartstack_replication_for_instance_def check_service_replication_def
      split: expected_count_result.splits option.splits)

theorem aliased_instance_smartstack_silent_witness:
  "read_namespace_for_service_instance example_env ''svc'' ''shadow'' ''/soa'' \<noteq> ''shadow'' \<and>
   get_proxy_port_for_instance example_env ''svc'' ''shadow'' ''/soa'' \<noteq> None \<and>
   check_smartstack_replication_for_instance example_env ''svc'' ''shadow'' example_info
     ''/soa'' 50 10 = Inr [] \<and>
   check_service_replication example_env ''svc'' ''shadow'' 50 example_info ''/soa'' = Inr []"
proof -
  have h: "read_namespace_for_service_instance example_env ''svc'' ''shadow'' ''/soa'' \<noteq> ''shadow''"
    by (simp add: example_env_def)
  have p: "get_proxy_port_for_instance example_env ''svc'' ''shadow'' ''/soa'' \<noteq> None"
    by (simp add: example_env_def)
  from aliased_instance_smartstack_silent [OF h, of example_info 50 10] h p show ?thesis by blast
qed

text \<open>
  C2 as stated fails on the direct-count path, which never reads the namespace: the
  instances \<open>canary\<close> and \<open>adhoc\<close>, announced under another namespace and without a
  proxy port, each get an event (OK for an expected count of 0, CRITICAL for 1 task
  running out of 4 expected).
\<close>

theorem aliased_instance_mesos_counterexample:
  "read_namespace_for_service_instance example_env ''svc'' ''canary'' ''/soa'' \<noteq> ''canary'' \<and>
   map_sum id (map (\<lambda>ev. (ev_check_name ev, ev_status ev)))
     (check_service_replication example_env ''svc'' ''canary'' 50 example_info ''/soa'')
   = Inr [(''check_marathon_services_replication.svc.canary'', OK)] \<and>
   read_namespace_for_service_instance example_env ''svc'' ''adhoc'' ''/soa'' \<noteq> ''adhoc'' \<and>
   map_sum id (map (\<lambda>ev. (ev_check_name ev, ev_status ev)))
     (check_service_replication example_env ''svc'' ''adhoc'' 50 example_info ''/soa'')
   = Inr [(''check_marathon_services_replication.svc.adhoc'', CRITICAL)]"
  by (simp add: example_env_def check_service_replication_def
      check_mesos_replication_for_service_def send_event_if_under_replication_def
      is_under_replicated_def compute_ratio_1_4 compute_ratio_zero send_event_def Let_def
      full_name_of_def)

section \<open>The discovery path without data\<close>

text \<open>
  C3. On the discovery path, when the slice of the snapshot is empty, the status is
  CRITICAL and the text is the no-replication-info message followed by the context;
  the event (sent if the team resolves) depends neither on the expected count nor on the
  threshold, so no per-location expected count and no ratio enters it.
\<close>

theorem no_replication_info_is_critical:
  assumes "read_namespace_for_service_instance E service instance soa_dir = instance"
    and "dict_len smartstack_replication_info = 0"
  shows "check_smartstack_replication_for_instance E service instance smartstack_replication_info
           soa_dir crit_threshold expected_count
         = Inr (send_event E service instance soa_dir CRITICAL
                  (''Service '' @ service @ ID_SPACER E @ instance @
                   '' has no Smartstack replication info. Make sure the discover key in your smartstack.yaml is valid!'' @
                   [CHR 0x0A] @ [CHR 0x0A] @ get_context E service instance)) \<and>
         (\<forall>crit_threshold' expected_count'.
            check_smartstack_replication_for_instance E service instance
              smartstack_replication_info soa_dir crit_threshold' expected_count'
            = check_smartstack_replication_for_instance E service instance
                smartstack_replication_info soa_dir crit_threshold expected_count)"
  using assms
  by (simp add: check_smartstack_replication_for_instance_def Let_def full_name_of_def
      no_replication_info_output_def add_context_to_event_def)

theorem no_replication_info_is_critical_witness:
  "read_namespace_for_service_instance example_env ''svc'' ''main'' ''/soa'' = ''main'' \<and>
   dict_len fmempty = 0 \<and>
   map_sum id (map (\<lambda>ev. (ev_status ev, ev_output ev)))
     (check_smartstack_replication_for_instance example_env ''svc'' ''main'' fmempty ''/soa'' 50 10)
   = Inr [(CRITICAL,
           ''Service svc.main has no Smartstack replication info. Make sure the discover key in your smartstack.yaml is valid!'' @
           [CHR 0x0A, CHR 0x0A] @ ''recent deploys'')]"
proof -
  have h1: "read_namespace_for_service_instance example_env ''svc'' ''main'' ''/soa'' = ''main''"
    by (simp add: example_env_def)
  have h2: "dict_len fmempty = 0" by (simp add: dict_len_def)
  from no_replication_info_is_critical [OF h1 h2, of 50 10]
  have "check_smartstack_replication_for_instance example_env ''svc'' ''main'' fmempty ''/soa'' 50 10
         = Inr (send_event example_env ''svc'' ''main'' ''/soa'' CRITICAL
                  (''Service '' @ ''svc'' @ ID_SPACER example_env @ ''main'' @
                   '' has no Smartstack replication info. Make sure the discover key in your smartstack.yaml is valid!'' @
                   [CHR 0x0A] @ [CHR 0x0A] @ get_context example_env ''svc'' ''main''))"
    by blast
  then show ?thesis using h1 h2 by (simp add: send_event_def Let_def example_env_def)
qed

section \<open>The direct-count path\<close>

text \<open>
  C6. For an instance with an expected count and no proxy port, the observed count is
  the number of running tasks returned for the instance, one ratio is computed from it
  and the full expected count (the snapshot does not enter the result), and the event
  is CRITICAL if and only if that ratio is below the threshold, OK otherwise.
\<close>

theorem direct_count_path:
  assumes "get_expected_instance_count_for_namespace E service instance soa_dir
             = Returned (Some expected_count)"
    and "get_proxy_port_for_instance E service instance soa_dir = None"
  shows "check_service_replication E service instance crit_threshold smartstack_replication_info
           soa_dir
         = (case compute_ratio
                  (int (length (get_running_tasks_from_active_frameworks E service instance)))
                  expected_count of
              Inl err \<Rightarrow> Inl err
            | Inr ratio \<Rightarrow>
                Inr (send_event E service instance soa_dir
                       (if float_less_int ratio crit_threshold then CRITICAL else OK)
                       (''Service '' @ service @ ID_SPACER E @ instance @ '' has '' @
                        format_d (int (length (get_running_tasks_from_active_frameworks E service
                                                 instance))) @
                        '' out of '' @ format_d expected_count @
                        '' expected instances available!'' @ [CHR 0x0A] @
                        ''(threshold: '' @ format_d crit_threshold @ ''%)'')))"
  using assms
  by (simp add: check_service_replication_def check_mesos_replication_for_service_def
      send_event_if_under_replication_def is_under_replicated_def Let_def full_name_of_def
      split: sum.splits)

theorem direct_count_path_witness:
  "get_expected_instance_count_for_namespace example_env ''svc'' ''batch'' ''/soa''
     = Returned (Some 4) \<and>
   get_proxy_port_for_instance example_env ''svc'' ''batch'' ''/soa'' = None \<and>
   map_sum id (map (\<lambda>ev. (ev_status ev, ev_output ev)))
     (check_service_replication example_env ''svc'' ''batch'' 50 example_info ''/soa'')
   = Inr [(CRITICAL,
           ''Service svc.batch has 1 out of 4 expected instances available!'' @ [CHR 0x0A] @
           ''(threshold: 50%)'')]"
proof -
  have h1: "get_expected_instance_count_for_namespace example_env ''svc'' ''batch'' ''/soa''
     = Returned (Some 4)"
    by (simp add: example_env_def)
  have h2: "get_proxy_port_for_instance example_env ''svc'' ''batch'' ''/soa'' = None"
    by (simp add: example_env_def)
  have t: "int (length (get_running_tasks_from_active_frameworks example_env ''svc'' ''batch'')) = 1"
    by (simp add: example_env_def)
  show ?thesis
    using h1 h2 direct_count_path [OF h1 h2, of 50 example_info]
    by (simp add: t compute_ratio_1_4 send_event_def Let_def format_eval)
       (simp add: example_env_def)
qed

section \<open>The per-location expected count\<close>

text \<open>
  C10. The division of the expected count by the number of locations is reached only
  with a non-empty snapshot slice, where it succeeds; the check never raises
  \<^verbatim>\<open>ZeroDivisionError\<close>, whatever the slice.
\<close>

theorem per_location_division_safe:
  "check_smartstack_replication_for_instance E service instance smartstack_replication_info
     soa_dir crit_threshold expected_count \<noteq> Inl ZeroDivisionError \<and>
   (dict_len smartstack_replication_info \<noteq> 0 \<longrightarrow>
      expected_count_per_location expected_count smartstack_replication_info
        = Inr (expected_count div int (dict_len smartstack_replication_info)))"
proof
  show "check_smartstack_replication_for_instance E service instance smartstack_replication_info
     soa_dir crit_threshold expected_count \<noteq> Inl ZeroDivisionError"
    using check_locations_no_zero_division
    by (auto simp: check_smartstack_replication_for_instance_def Let_def
        expected_count_per_location_def py_int_div_def split: sum.splits prod.splits if_splits)
  show "dict_len smartstack_replication_info \<noteq> 0 \<longrightarrow>
      expected_count_per_location expected_count smartstack_replication_info
        = Inr (expected_count div int (dict_len smartstack_replication_info))"
    by (simp add: expected_count_per_location_def py_int_div_def)
qed

theorem per_location_division_safe_witness:
  "dict_len example_info \<noteq> 0 \<and>
   expected_count_per_location 10 example_info = Inr 3 \<and>
   check_smartstack_replication_for_instance example_env ''svc'' ''main'' example_info
     ''/soa'' 50 10 \<noteq> Inl ZeroDivisionError \<and>
   check_smartstack_replication_for_instance example_env ''svc'' ''main'' fmempty
     ''/soa'' 50 10 \<noteq> Inl ZeroDivisionError"
  using per_location_division_safe [of example_env "''svc''" "''main''" example_info "''/soa''" 50 10]
    per_location_division_safe [of example_env "''svc''" "''main''" fmempty "''/soa''" 50 10]
  by (simp add: example_info_len)

text \<open>
  C4. With a non-empty snapshot slice, the check is the loop run with one per-location
  expected count, \<open>floor(expected_count / number of locations)\<close>, handed to the round of
  every location. The remainder of the division is dropped and goes to no location:
  summed over the locations, the per-location expected counts give
  \<open>expected_count - expected_count mod n\<close>, strictly less than \<open>expected_count\<close> exactly when
  the division leaves a remainder, and the check gives the same result for
  \<open>expected_count\<close> as for \<open>expected_count\<close> less that remainder.
\<close>

theorem per_location_expected_floor:
  assumes ns: "read_namespace_for_service_instance E service instance soa_dir = instance"
    and ne: "dict_len smartstack_replication_info \<noteq> 0"
  shows
    "expected_count_per_location expected_count smartstack_replication_info
       = Inr \<lfloor>rat_of_int expected_count / rat_of_int (int (dict_len smartstack_replication_info))\<rfloor> \<and>
     check_smartstack_replication_for_instance E service instance smartstack_replication_info
       soa_dir crit_threshold expected_count
     = (case collect_rows
               (map (location_row (service @ ID_SPACER E @ instance)
                       \<lfloor>rat_of_int expected_count /
                        rat_of_int (int (dict_len smartstack_replication_info))\<rfloor>
                       crit_threshold)
                  (sorted_items smartstack_replication_info)) of
          Inl err \<Rightarrow> Inl err
        | Inr rows \<Rightarrow>
            if list_ex snd rows
            then Inr (send_event E service instance soa_dir CRITICAL
                        (add_context_to_event E service instance (concat (map fst rows))))
            else Inr (send_event E service instance soa_dir OK (concat (map fst rows)))) \<and>
     (\<Sum>location \<in> fset (fmdom smartstack_replication_info).
        \<lfloor>rat_of_int expected_count / rat_of_int (int (dict_len smartstack_replication_info))\<rfloor>)
       = expected_count - expected_count mod int (dict_len smartstack_replication_info) \<and>
     ((\<Sum>location \<in> fset (fmdom smartstack_replication_info).
         \<lfloor>rat_of_int expected_count / rat_of_int (int (dict_len smartstack_replication_info))\<rfloor>)
        < expected_count
      \<longleftrightarrow> expected_count mod int (dict_len smartstack_replication_info) \<noteq> 0) \<and>
     check_smartstack_replication_for_instance E service instance smartstack_replication_info
       soa_dir crit_threshold expected_count
     = check_smartstack_replication_for_instance E service instance smartstack_replication_info
         soa_dir crit_threshold
         (expected_count - expected_count mod int (dict_len smartstack_replication_info))"
proof -
  define n where "n = int (dict_len smartstack_replication_info)"
  define k where "k = expected_count div n"
  define fn where "fn = service @ ID_SPACER E @ instance"
  have npos: "0 < n" using ne by (simp add: n_def)
  have fl: "\<lfloor>rat_of_int expected_count / rat_of_int n\<rfloor> = k"
    unfolding k_def by (rule floor_divide_of_int_eq)
  have a: "expected_count_per_location expected_count smartstack_replication_info = Inr k"
    using ne by (simp add: expected_count_per_location_def py_int_div_def k_def n_def)
  have f: "full_name_of E service instance = fn" by (simp add: full_name_of_def fn_def)
  have z: "dict_len smartstack_replication_info = 0 \<longleftrightarrow> False" using ne by simp
  have run: "check_smartstack_replication_for_instance E service instance
       smartstack_replication_info soa_dir crit_threshold expected_count
     = (case collect_rows (map (location_row fn k crit_threshold)
                             (sorted_items smartstack_replication_info)) of
          Inl err \<Rightarrow> Inl err
        | Inr rows \<Rightarrow>
            if list_ex snd rows
            then Inr (send_event E service instance soa_dir CRITICAL
                        (add_context_to_event E service instance (concat (map fst rows))))
            else Inr (send_event E service instance soa_dir OK (concat (map fst rows))))"
    unfolding check_smartstack_replication_for_instance_def Let_def ns a f z
      check_locations_collect
    by (simp add: list_ex_iff split: sum.splits)
  have s: "(\<Sum>location \<in> fset (fmdom smartstack_replication_info). k) = n * k"
    unfolding n_def by (rule sum_locations)
  have m: "n * k = expected_count - expected_count mod n"
    unfolding k_def by (rule minus_mod_eq_mult_div [symmetric])
  have c: "(\<Sum>location \<in> fset (fmdom smartstack_replication_info). k)
      = expected_count - expected_count mod n"
    using s m by (rule trans)
  have p: "0 \<le> expected_count mod n" using npos by (rule pos_mod_sign)
  have d: "(\<Sum>location \<in> fset (fmdom smartstack_replication_info). k) < expected_count
      \<longleftrightarrow> expected_count mod n \<noteq> 0"
    unfolding c using p by linarith
  have k': "(expected_count - expected_count mod n) div n = k"
    unfolding k_def using npos by (intro div_without_remainder) simp
  have a': "expected_count_per_location (expected_count - expected_count mod n)
              smartstack_replication_info = Inr k"
    using ne k' by (simp add: expected_count_per_location_def py_int_div_def n_def)
  have inv: "check_smartstack_replication_for_instance E service instance
       smartstack_replication_info soa_dir crit_threshold expected_count
     = check_smartstack_replication_for_instance E service instance smartstack_replication_info
         soa_dir crit_threshold (expected_count - expected_count mod n)"
    unfolding check_smartstack_replication_for_instance_def Let_def a a' ..
  show ?thesis
    unfolding n_def [symmetric] fn_def [symmetric] fl
    using a run c d inv by (intro conjI)
qed

theorem per_location_expected_floor_witness:
  "read_namespace_for_service_instance example_env ''svc'' ''main'' ''/soa'' = ''main'' \<and>
   dict_len example_info \<noteq> 0 \<and>
   expected_count_per_location 10 example_info = Inr 3 \<and>
   (\<Sum>location \<in> fset (fmdom example_info). (3::int)) = 9 \<and>
   (\<Sum>location \<in> fset (fmdom example_info). (3::int)) < 10 \<and>
   check_smartstack_replication_for_instance example_env ''svc'' ''main'' example_info
     ''/soa'' 50 9 = Inr [example_event]"
proof -
  have ns: "read_namespace_for_service_instance example_env ''svc'' ''main'' ''/soa'' = ''main''"
    by (simp add: example_env_def)
  have ne: "dict_len example_info \<noteq> 0" by (simp add: example_info_len)
  have q: "\<lfloor>rat_of_int 10 / rat_of_int (int (dict_len example_info))\<rfloor> = 3"
    by (simp add: example_info_len floor_rat_numeral)
  have r: "(10::int) - 10 mod int (dict_len example_info) = 9"
    by (simp add: example_info_len)
  note t = per_location_expected_floor [OF ns ne, of 10 50]
  have a: "expected_count_per_location 10 example_info = Inr 3"
    using t [THEN conjunct1] unfolding q .
  have s: "(\<Sum>location \<in> fset (fmdom example_info). (3::int)) = 9"
    using t [THEN conjunct2, THEN conjunct2, THEN conjunct1] unfolding q r .
  have l: "(\<Sum>location \<in> fset (fmdom example_info). (3::int)) < 10"
    unfolding s by simp
  have "check_smartstack_replication_for_instance example_env ''svc'' ''main'' example_info
          ''/soa'' 50 10
        = check_smartstack_replication_for_instance example_env ''svc'' ''main'' example_info
            ''/soa'' 50 9"
    using t [THEN conjunct2, THEN conjunct2, THEN conjunct2, THEN conjunct2] unfolding r .
  then have i: "check_smartstack_replication_for_instance example_env ''svc'' ''main''
                  example_info ''/soa'' 50 9 = Inr [example_event]"
    unfolding example_run_full by (rule sym)
  from ns ne a s l i show ?thesis by (intro conjI)
qed

section \<open>The overall status on the discovery path\<close>

text \<open>
  C5. With a non-empty snapshot slice, whenever the check returns, what it has sent is
  exactly one call of \<open>send_event\<close> whose status is CRITICAL if some location is
  under-replicated (the count recorded there for the full instance name, 0 when absent,
  gives a ratio below the threshold against the per-location expected count) and OK
  otherwise. For counts below \<open>2^53\<close> in magnitude the check does return.
\<close>

theorem any_location_under_replicated_is_critical:
  assumes ns: "read_namespace_for_service_instance E service instance soa_dir = instance"
    and ne: "dict_len smartstack_replication_info \<noteq> 0"
  shows "(\<forall>evs. check_smartstack_replication_for_instance E service instance
                  smartstack_replication_info soa_dir crit_threshold expected_count = Inr evs \<longrightarrow>
            (\<exists>body. evs = send_event E service instance soa_dir
                (if \<exists>location available_backends ratio.
                      fmlookup smartstack_replication_info location = Some available_backends \<and>
                      compute_ratio
                        (dict_get available_backends (service @ ID_SPACER E @ instance) 0)
                        (expected_count div int (dict_len smartstack_replication_info))
                        = Inr ratio \<and>
                      float_less_int ratio crit_threshold
                 then CRITICAL else OK)
                body)) \<and>
         (\<bar>expected_count\<bar> < 2 ^ 53 \<and>
          (\<forall>location available_backends.
             fmlookup smartstack_replication_info location = Some available_backends \<longrightarrow>
             \<bar>dict_get available_backends (service @ ID_SPACER E @ instance) 0\<bar> < 2 ^ 53) \<longrightarrow>
          (\<exists>evs. check_smartstack_replication_for_instance E service instance
                   smartstack_replication_info soa_dir crit_threshold expected_count = Inr evs))"
proof (intro conjI allI impI)
  fix evs
  assume res: "check_smartstack_replication_for_instance E service instance
                  smartstack_replication_info soa_dir crit_threshold expected_count = Inr evs"
  define fn where "fn = service @ ID_SPACER E @ instance"
  define epl where "epl = expected_count div int (dict_len smartstack_replication_info)"
  define items where "items = sorted_items smartstack_replication_info"
  define under where "under \<longleftrightarrow> (\<exists>location available_backends ratio.
               fmlookup smartstack_replication_info location = Some available_backends \<and>
               compute_ratio (dict_get available_backends fn 0) epl = Inr ratio \<and>
               float_less_int ratio crit_threshold)"
  have e: "expected_count_per_location expected_count smartstack_replication_info = Inr epl"
    using ne by (simp add: expected_count_per_location_def py_int_div_def epl_def)
  have f: "full_name_of E service instance = fn" by (simp add: full_name_of_def fn_def)
  from res obtain out unders where
    loop: "check_locations fn epl crit_threshold items [] [] = Inr (out, unders)"
    and evs: "evs = (if list_ex (\<lambda>b. b) unders
                     then send_event E service instance soa_dir CRITICAL
                            (add_context_to_event E service instance out)
                     else send_event E service instance soa_dir OK out)"
    unfolding check_smartstack_replication_for_instance_def Let_def ns e f items_def [symmetric]
    using ne by (auto split: sum.splits prod.splits if_splits)
  have any: "list_ex (\<lambda>b. b) unders \<longleftrightarrow> under"
    unfolding under_def using loop items_def by (rule any_under_iff)
  have "evs = send_event E service instance soa_dir (if under then CRITICAL else OK)
                (if under then add_context_to_event E service instance out else out)"
    unfolding evs any by simp
  then have "\<exists>body. evs = send_event E service instance soa_dir
                (if under then CRITICAL else OK) body" ..
  then show "\<exists>body. evs = send_event E service instance soa_dir
                (if \<exists>location available_backends ratio.
                      fmlookup smartstack_replication_info location = Some available_backends \<and>
                      compute_ratio
                        (dict_get available_backends (service @ ID_SPACER E @ instance) 0)
                        (expected_count div int (dict_len smartstack_replication_info))
                        = Inr ratio \<and>
                      float_less_int ratio crit_threshold
                 then CRITICAL else OK)
                body"
    unfolding under_def fn_def epl_def .
next
  assume b: "\<bar>expected_count\<bar> < 2 ^ 53 \<and>
          (\<forall>location available_backends.
             fmlookup smartstack_replication_info location = Some available_backends \<longrightarrow>
             \<bar>dict_get available_backends (service @ ID_SPACER E @ instance) 0\<bar> < 2 ^ 53)"
  show "\<exists>evs. check_smartstack_replication_for_instance E service instance
                   smartstack_replication_info soa_dir crit_threshold expected_count = Inr evs"
    using b [THEN conjunct1] b [THEN conjunct2] by (rule check_smartstack_returns)
qed

theorem any_location_under_replicated_is_critical_witness:
  "read_namespace_for_service_instance example_env ''svc'' ''main'' ''/soa'' = ''main'' \<and>
   dict_len example_info \<noteq> 0 \<and>
   check_smartstack_replication_for_instance example_env ''svc'' ''main'' example_info
     ''/soa'' 50 10 = Inr [example_event] \<and>
   (\<exists>body. [example_event] = send_event example_env ''svc'' ''main'' ''/soa'' CRITICAL body) \<and>
   check_smartstack_replication_for_instance example_env ''svc'' ''main'' example_info
     ''/soa'' 0 10 = Inr [example_event_ok] \<and>
   (\<exists>body. [example_event_ok] = send_event example_env ''svc'' ''main'' ''/soa'' OK body) \<and>
   \<bar>10::int\<bar> < 2 ^ 53 \<and>
   list_all (\<lambda>entry. \<bar>dict_get (snd entry) ''svc.main'' 0\<bar> < 2 ^ 53)
     (sorted_items example_info) \<and>
   (\<exists>evs. check_smartstack_replication_for_instance example_env ''svc'' ''main'' example_info
            ''/soa'' 50 10 = Inr evs)"
proof -
  have ns: "read_namespace_for_service_instance example_env ''svc'' ''main'' ''/soa'' = ''main''"
    by (simp add: example_env_def)
  have ne: "dict_len example_info \<noteq> 0" by (simp add: example_info_len)
  have b1: "\<bar>10::int\<bar> < 2 ^ 53" by simp
  note t50 = any_location_under_replicated_is_critical [OF ns ne, of 50 10]
  note t0 = any_location_under_replicated_is_critical [OF ns ne, of 0 10]
  have c: "\<exists>body. [example_event] = send_event example_env ''svc'' ''main'' ''/soa'' CRITICAL body"
  proof (rule status_resolve)
    show "ev_status example_event = CRITICAL" by (simp add: example_event_def)
    show "\<exists>body. [example_event] = send_event example_env ''svc'' ''main'' ''/soa''
            (if \<exists>location available_backends ratio.
                      fmlookup example_info location = Some available_backends \<and>
                      compute_ratio
                        (dict_get available_backends (''svc'' @ ID_SPACER example_env @ ''main'') 0)
                        (10 div int (dict_len example_info))
                        = Inr ratio \<and>
                      float_less_int ratio 50
                 then CRITICAL else OK) body"
      using t50 [THEN conjunct1, THEN spec, THEN mp, OF example_run_full] .
  qed
  have o: "\<exists>body. [example_event_ok] = send_event example_env ''svc'' ''main'' ''/soa'' OK body"
  proof (rule status_resolve)
    show "ev_status example_event_ok = OK" by (simp add: example_event_ok_def)
    show "\<exists>body. [example_event_ok] = send_event example_env ''svc'' ''main'' ''/soa''
            (if \<exists>location available_backends ratio.
                      fmlookup example_info location = Some available_backends \<and>
                      compute_ratio
                        (dict_get available_backends (''svc'' @ ID_SPACER example_env @ ''main'') 0)
                        (10 div int (dict_len example_info))
                        = Inr ratio \<and>
                      float_less_int ratio 0
                 then CRITICAL else OK) body"
      using t0 [THEN conjunct1, THEN spec, THEN mp, OF example_run_ok] .
  qed
  have r: "\<exists>evs. check_smartstack_replication_for_instance example_env ''svc'' ''main''
             example_info ''/soa'' 50 10 = Inr evs"
    using t50 [THEN conjunct2, THEN mp, OF conjI, OF b1 example_info_bounds] .
  have b2: "list_all (\<lambda>entry. \<bar>dict_get (snd entry) ''svc.main'' 0\<bar> < 2 ^ 53)
              (sorted_items example_info)"
    by (simp add: example_info_items dict_get_def)
  from ns ne example_run_full c example_run_ok o b1 b2 r
  show ?thesis by (intro conjI)
qed

section \<open>The report of the discovery path\<close>

text \<open>
  C9 (as amended). With a non-empty snapshot slice, the text of an event sent starts
  with exactly one line per location, in strictly ascending order of the location
  names (the order in which the locations are evaluated). Each line is
  \<^verbatim>\<open>- Service <full name> has <observed> out of <per-location expected> expected
  instances in <location> (<OK|CRITICAL>: <ratio>%)\<close> followed by a newline, where the ratio
  is shown truncated to an integer. On a CRITICAL verdict the lines are followed by one
  more newline and the context of the instance; on OK nothing follows.
\<close>

theorem report_one_line_per_location:
  assumes ns: "read_namespace_for_service_instance E service instance soa_dir = instance"
    and ne: "dict_len smartstack_replication_info \<noteq> 0"
    and res: "check_smartstack_replication_for_instance E service instance
                smartstack_replication_info soa_dir crit_threshold expected_count = Inr evs"
    and ev: "ev \<in> set evs"
  shows "sorted_wrt (<) (sorted_list_of_fset (fmdom smartstack_replication_info)) \<and>
         set (sorted_list_of_fset (fmdom smartstack_replication_info))
           = fset (fmdom smartstack_replication_info) \<and>
         (\<exists>lines.
            length lines = length (sorted_list_of_fset (fmdom smartstack_replication_info)) \<and>
            ev_output ev = concat lines @
              (if ev_status ev = CRITICAL then [CHR 0x0A] @ get_context E service instance else []) \<and>
            (\<forall>k < length lines. \<exists>available_backends ratio.
               fmlookup smartstack_replication_info
                 (sorted_list_of_fset (fmdom smartstack_replication_info) ! k)
                 = Some available_backends \<and>
               compute_ratio (dict_get available_backends (service @ ID_SPACER E @ instance) 0)
                 (expected_count div int (dict_len smartstack_replication_info))
                 = Inr (Finite ratio) \<and>
               lines ! k =
                 ''- Service '' @ (service @ ID_SPACER E @ instance) @ '' has '' @
                 format_d (dict_get available_backends (service @ ID_SPACER E @ instance) 0) @
                 '' out of '' @
                 format_d (expected_count div int (dict_len smartstack_replication_info)) @
                 '' expected instances in '' @
                 sorted_list_of_fset (fmdom smartstack_replication_info) ! k @
                 '' ('' @ (if ratio < of_int crit_threshold then ''CRITICAL'' else ''OK'') @
                 '': '' @ format_d (truncate_rat ratio) @ ''%)'' @ [CHR 0x0A]))"
proof -
  define fn where "fn = service @ ID_SPACER E @ instance"
  define epl where "epl = expected_count div int (dict_len smartstack_replication_info)"
  define items where "items = sorted_items smartstack_replication_info"
  define locs where "locs = sorted_list_of_fset (fmdom smartstack_replication_info)"
  have e: "expected_count_per_location expected_count smartstack_replication_info = Inr epl"
    using ne by (simp add: expected_count_per_location_def py_int_div_def epl_def)
  have f: "full_name_of E service instance = fn" by (simp add: full_name_of_def fn_def)
  from res obtain out unders where
    loop: "check_locations fn epl crit_threshold items [] [] = Inr (out, unders)"
    and evs: "evs = (if list_ex (\<lambda>b. b) unders
                     then send_event E service instance soa_dir CRITICAL
                            (add_context_to_event E service instance out)
                     else send_event E service instance soa_dir OK out)"
    unfolding check_smartstack_replication_for_instance_def Let_def ns e f items_def [symmetric]
    using ne by (auto split: sum.splits prod.splits if_splits)
  from check_locations_Inr [OF loop] obtain rows where
    len: "length rows = length items" and out: "out = concat (map fst rows)"
    and rows: "\<forall>k < length items. \<exists>ratio shown.
              compute_ratio (dict_get (snd (items ! k)) fn 0) epl = Inr ratio \<and>
              format_d_float ratio = Inr shown \<and>
              snd (rows ! k) = float_less_int ratio crit_threshold \<and>
              fst (rows ! k) =
                ''- Service '' @ fn @ '' has '' @ format_d (dict_get (snd (items ! k)) fn 0) @
                '' out of '' @ format_d epl @ '' expected instances in '' @ fst (items ! k) @
                '' ('' @ (if float_less_int ratio crit_threshold then ''CRITICAL'' else ''OK'') @ '': '' @
                shown @ ''%)'' @ [CHR 0x0A]"
    by auto
  have ll: "length items = length locs"
    using arg_cong [OF sorted_items_keys [of smartstack_replication_info], of length]
    by (simp add: items_def locs_def)
  have body: "ev_output ev = concat (map fst rows) @
      (if ev_status ev = CRITICAL then [CHR 0x0A] @ get_context E service instance else [])"
    using ev send_event_fields unfolding evs out
    by (auto simp: add_context_to_event_def split: if_splits)
  have each: "\<exists>available_backends ratio.
               fmlookup smartstack_replication_info (locs ! k) = Some available_backends \<and>
               compute_ratio (dict_get available_backends fn 0) epl = Inr (Finite ratio) \<and>
               map fst rows ! k =
                 ''- Service '' @ fn @ '' has '' @ format_d (dict_get available_backends fn 0) @
                 '' out of '' @ format_d epl @ '' expected instances in '' @ locs ! k @
                 '' ('' @ (if ratio < of_int crit_threshold then ''CRITICAL'' else ''OK'') @
                 '': '' @ format_d (truncate_rat ratio) @ ''%)'' @ [CHR 0x0A]"
    if k: "k < length (map fst rows)" for k
  proof -
    have ki: "k < length items" using k len by simp
    with rows obtain ratio shown where
      c: "compute_ratio (dict_get (snd (items ! k)) fn 0) epl = Inr ratio"
      and s: "format_d_float ratio = Inr shown"
      and l: "fst (rows ! k) =
                ''- Service '' @ fn @ '' has '' @ format_d (dict_get (snd (items ! k)) fn 0) @
                '' out of '' @ format_d epl @ '' expected instances in '' @ fst (items ! k) @
                '' ('' @ (if float_less_int ratio crit_threshold then ''CRITICAL'' else ''OK'') @ '': '' @
                shown @ ''%)'' @ [CHR 0x0A]"
      by blast
    from format_d_float_Inr [OF s] obtain r where r: "ratio = Finite r"
      and sh: "shown = format_d (truncate_rat r)" by blast
    have kk: "k < length (sorted_items smartstack_replication_info)" using ki by (simp add: items_def)
    have fk: "fst (items ! k) = locs ! k"
      using sorted_items_nth(1) [OF kk] by (simp add: items_def locs_def)
    have lk: "fmlookup smartstack_replication_info (locs ! k) = Some (snd (items ! k))"
      using sorted_items_nth(2) [OF kk] by (simp add: items_def locs_def)
    have nk: "map fst rows ! k = fst (rows ! k)" using k by simp
    show ?thesis
      using lk c l unfolding r sh fk nk by (intro exI [of _ "snd (items ! k)"] exI [of _ r]) simp
  qed
  have "\<exists>lines. length lines = length locs \<and>
            ev_output ev = concat lines @
              (if ev_status ev = CRITICAL then [CHR 0x0A] @ get_context E service instance else []) \<and>
            (\<forall>k < length lines. \<exists>available_backends ratio.
               fmlookup smartstack_replication_info (locs ! k) = Some available_backends \<and>
               compute_ratio (dict_get available_backends fn 0) epl = Inr (Finite ratio) \<and>
               lines ! k =
                 ''- Service '' @ fn @ '' has '' @ format_d (dict_get available_backends fn 0) @
                 '' out of '' @ format_d epl @ '' expected instances in '' @ locs ! k @
                 '' ('' @ (if ratio < of_int crit_threshold then ''CRITICAL'' else ''OK'') @
                 '': '' @ format_d (truncate_rat ratio) @ ''%)'' @ [CHR 0x0A])"
  proof (intro exI [of _ "map fst rows"] conjI allI impI)
    show "length (map fst rows) = length locs" using len ll by simp
    show "ev_output ev = concat (map fst rows) @
      (if ev_status ev = CRITICAL then [CHR 0x0A] @ get_context E service instance else [])"
      by (rule body)
    fix k assume "k < length (map fst rows)"
    then show "\<exists>available_backends ratio.
               fmlookup smartstack_replication_info (locs ! k) = Some available_backends \<and>
               compute_ratio (dict_get available_backends fn 0) epl = Inr (Finite ratio) \<and>
               map fst rows ! k =
                 ''- Service '' @ fn @ '' has '' @ format_d (dict_get available_backends fn 0) @
                 '' out of '' @ format_d epl @ '' expected instances in '' @ locs ! k @
                 '' ('' @ (if ratio < of_int crit_threshold then ''CRITICAL'' else ''OK'') @
                 '': '' @ format_d (truncate_rat ratio) @ ''%)'' @ [CHR 0x0A]"
      by (rule each)
  qed
  moreover have "sorted_wrt (<) locs" unfolding locs_def by (rule sorted_list_of_fset_strict)
  moreover have "set locs = fset (fmdom smartstack_replication_info)" by (simp add: locs_def)
  ultimately show ?thesis unfolding fn_def epl_def locs_def by (intro conjI)
qed

theorem report_one_line_per_location_witness:
  "read_namespace_for_service_instance example_env ''svc'' ''main'' ''/soa'' = ''main'' \<and>
   dict_len example_info \<noteq> 0 \<and>
   check_smartstack_replication_for_instance example_env ''svc'' ''main'' example_info
     ''/soa'' 50 10 = Inr [example_event] \<and>
   example_event \<in> set [example_event] \<and>
   sorted_wrt (<) [''dc-a'', ''dc-b'', ''dc-c''] \<and>
   (\<exists>lines. length lines = 3 \<and>
      ev_output example_event = concat lines @ [CHR 0x0A] @ ''recent deploys'')"
proof -
  have ns: "read_namespace_for_service_instance example_env ''svc'' ''main'' ''/soa'' = ''main''"
    by (simp add: example_env_def)
  have ne: "dict_len example_info \<noteq> 0" by (simp add: example_info_len)
  have ev: "example_event \<in> set [example_event]" by simp
  have st: "ev_status example_event = CRITICAL" by (simp add: example_event_def)
  have ctx: "get_context example_env ''svc'' ''main'' = ''recent deploys''"
    by (simp add: example_env_def)
  have len: "length (sorted_list_of_fset (fmdom example_info)) = 3"
    by (simp add: example_info_keys)
  note t = report_one_line_per_location [OF ns ne example_run_full ev]
  have s: "sorted_wrt (<) [''dc-a'', ''dc-b'', ''dc-c'']"
    using t [THEN conjunct1] unfolding example_info_keys .
  have "\<exists>lines. length lines = length (sorted_list_of_fset (fmdom example_info)) \<and>
     ev_output example_event = concat lines @
       (if ev_status example_event = CRITICAL
        then [CHR 0x0A] @ get_context example_env ''svc'' ''main'' else [])"
    using t [THEN conjunct2, THEN conjunct2] by (rule ex_conj_weaken)
  then have w: "\<exists>lines. length lines = 3 \<and>
      ev_output example_event = concat lines @ [CHR 0x0A] @ ''recent deploys''"
    unfolding len st ctx by simp
  from ns ne example_run_full ev s w show ?thesis by (intro conjI)
qed

text \<open>
  C9 as stated fails: a line of the report is not the quoted format itself but the
  format behind the prefix \<^verbatim>\<open>- Service\<close>.
\<close>

theorem report_line_format_counterexample:
  "check_smartstack_replication_for_instance example_env ''svc'' ''main'' example_info
     ''/soa'' 50 10 = Inr [example_event] \<and>
   takeWhile (\<lambda>c. c \<noteq> CHR 0x0A) (ev_output example_event)
     = ''- Service svc.main has 3 out of 3 expected instances in dc-a (OK: 100%)'' \<and>
   takeWhile (\<lambda>c. c \<noteq> CHR 0x0A) (ev_output example_event)
     \<noteq> ''svc.main has 3 out of 3 expected instances in dc-a (OK: 100%)''"
  by (simp add: example_run_full) (simp add: example_event_def)

end
